theory Spec2Isabelle
  imports Complex_Main "HOL-Library.Sublist"
begin

section \<open>Numbers of the host language\<close>

text \<open>
  The player is a TypeScript class; every numeric quantity it handles (playback position,
  duration, volume, the argument of \<open>formatTime\<close>) has the type \<open>number\<close>. Besides the
  finite values this type holds \<open>NaN\<close> and the two infinities, and the media element does
  hand them out: \<open>duration\<close> is \<open>NaN\<close> before metadata is known and \<open>Infinity\<close> for an
  unbounded stream. The three special values are therefore constructors of the model.

  A finite value is modelled by the rational it denotes. The finite values of the type are
  the double-precision numbers: 53 significant bits, exponents from \<open>-1022\<close> to \<open>1023\<close>,
  and the subnormal numbers below. \<open>fl\<close> rounds a rational to the nearest of them, a tie
  going to the even significand, and to an infinity from \<open>2 ^ 1024\<close> on; addition and
  division round their exact result with it. The sign of zero is not part of this model.
\<close>

datatype number = NaN | PosInf | NegInf | Fin rat

text \<open>Rounding to the nearest integer, a tie going to the even one.\<close>

definition rne :: "rat \<Rightarrow> int" where
  "rne q = (let f = \<lfloor>q\<rfloor>; r = q - of_int f in
            if r < 1 / 2 then f else if 1 / 2 < r then f + 1 else if even f then f else f + 1)"

text \<open>
  The binary exponent of \<open>x\<close>: the \<open>e\<close> with \<open>2 ^ e \<le> \<bar>x\<bar> < 2 ^ (e + 1)\<close>, kept at \<open>-1022\<close>
  for the subnormal numbers and zero, and \<open>1024\<close> when \<open>x\<close> is beyond the range. Neighbouring
  doubles of exponent \<open>e\<close> are \<open>2 ^ (e - 52)\<close> apart.
\<close>

function expo_from :: "rat \<Rightarrow> int \<Rightarrow> int" where
  "expo_from x e = (if 1024 \<le> e \<or> \<bar>x\<bar> < 2 powi (e + 1) then e else expo_from x (e + 1))"
  by pat_completeness auto
termination
  by (relation "measure (\<lambda>(x, e). nat (1024 - e))") auto

definition expo :: "rat \<Rightarrow> int" where
  "expo x = expo_from x (- 1022)"

definition ulp :: "rat \<Rightarrow> rat" where
  "ulp x = 2 powi (expo x - 52)"

definition fl :: "rat \<Rightarrow> number" where
  "fl x = (let y = of_int (rne (x / ulp x)) * ulp x in
           if 2 ^ 1024 \<le> y then PosInf else if y \<le> - (2 ^ 1024) then NegInf else Fin y)"

text \<open>A rational is a double when rounding leaves it as it is.\<close>

definition is_double :: "rat \<Rightarrow> bool" where
  "is_double x = (fl x = Fin x)"

text \<open>
  \<open>Math.floor\<close> returns a number that is integral or not finite. The model gives that
  result a type of its own, so that rendering it as text is defined on all of it.
\<close>

datatype integral = INaN | IPosInf | INegInf | IFin int

text \<open>Addition, as used by \<open>currentTime += seconds\<close>.\<close>

fun num_add :: "number \<Rightarrow> number \<Rightarrow> number" where
  "num_add (Fin a) (Fin b) = fl (a + b)"
| "num_add NaN y = NaN"
| "num_add x NaN = NaN"
| "num_add PosInf NegInf = NaN"
| "num_add NegInf PosInf = NaN"
| "num_add PosInf y = PosInf"
| "num_add x PosInf = PosInf"
| "num_add NegInf y = NegInf"
| "num_add x NegInf = NegInf"

text \<open>
  Division and remainder are only ever applied to the literal divisor \<open>60\<close>, so the second
  operand of both is a positive rational. The remainder operator \<open>%\<close> truncates the quotient
  towards zero (its result has the sign of the dividend) and is \<open>NaN\<close> on an infinite
  dividend; its result is exact, it needs no rounding.
\<close>

definition trunc :: "rat \<Rightarrow> int" where
  "trunc q = (if 0 \<le> q then \<lfloor>q\<rfloor> else \<lceil>q\<rceil>)"

fun num_div :: "number \<Rightarrow> rat \<Rightarrow> number" where
  "num_div (Fin a) c = fl (a / c)"
| "num_div NaN c = NaN"
| "num_div PosInf c = PosInf"
| "num_div NegInf c = NegInf"

fun num_rem :: "number \<Rightarrow> rat \<Rightarrow> number" where
  "num_rem (Fin a) c = Fin (a - c * of_int (trunc (a / c)))"
| "num_rem NaN c = NaN"
| "num_rem PosInf c = NaN"
| "num_rem NegInf c = NaN"

fun Math_floor :: "number \<Rightarrow> integral" where
  "Math_floor (Fin a) = IFin \<lfloor>a\<rfloor>"
| "Math_floor NaN = INaN"
| "Math_floor PosInf = IPosInf"
| "Math_floor NegInf = INegInf"

text \<open>The comparison \<open>sec < 10\<close>; every comparison with \<open>NaN\<close> is false.\<close>

fun less_than :: "integral \<Rightarrow> int \<Rightarrow> bool" where
  "less_than (IFin n) k = (n < k)"
| "less_than INaN k = False"
| "less_than IPosInf k = False"
| "less_than INegInf k = True"

subsection \<open>Rendering a number as text\<close>

fun digit :: "nat \<Rightarrow> char" where
  "digit d = ''0123456789'' ! d"

text \<open>The decimal digits of a non-negative integer, most significant first.\<close>

function decimal :: "int \<Rightarrow> string" where
  "decimal n = (if n < 10 then [digit (nat n)] else decimal (n div 10) @ [digit (nat (n mod 10))])"
  by pat_completeness auto
termination
  by (relation "measure nat") auto

text \<open>
  The conversion of a number to a string, for the integral values: a non-negative integer of
  at most 21 digits is written out in full; a longer one is written in exponent notation,
  its significant digits (trailing zeros dropped) followed by \<open>e+\<close> and the exponent.
  The digits written here are those of the integer itself. That is what the host writes
  for every integer below \<open>2 ^ 53\<close>; of a larger one it writes only as many leading digits
  as tell its double from the neighbouring ones, and zeros after them. Of such a string
  only the first character is used below, and that is the same.
\<close>

definition toString_nat :: "int \<Rightarrow> string" where
  "toString_nat n =
     (let ds = decimal n; len = length ds in
      if len \<le> 21 then ds
      else
        (let sig = rev (dropWhile (\<lambda>c. c = CHR ''0'') (rev ds)); e = decimal (int (len - 1)) in
         if length sig = 1 then sig @ ''e+'' @ e
         else hd sig # ''.'' @ tl sig @ ''e+'' @ e))"

fun toString :: "integral \<Rightarrow> string" where
  "toString (IFin n) = (if n < 0 then ''-'' @ toString_nat (- n) else toString_nat n)"
| "toString INaN = ''NaN''"
| "toString IPosInf = ''Infinity''"
| "toString INegInf = ''-Infinity''"

section \<open>The time formatter\<close>

text \<open>
  \<^verbatim>\<open>
  private formatTime(seconds: number): string {
      const min = Math.floor(seconds / 60);
      const sec = Math.floor(seconds % 60);
      return `${min}:${(sec < 10 ? '0' : '') + sec}`;
  }
  \<close>
\<close>

definition formatTime :: "number \<Rightarrow> string" where
  "formatTime seconds =
     (let min = Math_floor (num_div seconds 60);
          sec = Math_floor (num_rem seconds 60)
      in toString min @ '':'' @ ((if less_than sec 10 then ''0'' else '''') @ toString sec))"


section \<open>The document and the elements of the player\<close>

text \<open>
  The player reads and changes three things outside itself: the children of the container
  it is mounted in, the style blocks of the document head, and the element shown
  fullscreen. A \<open>node\<close> records the tag, the class list and the nesting an element had when
  it was attached; the properties the player keeps changing afterwards (icon classes,
  slider values, display texts, the state of the media engine) live in the records of the
  player below.
\<close>

datatype node = Node string "string list" "node list"

text \<open>
  A style block is kept as the list of the selectors of its rules; the declarations inside
  the rules do not take part in any property stated here.
\<close>

type_synonym stylesheet = "string list"

record document =
  elements :: "string \<rightharpoonup> node list"
  head :: "stylesheet list"
  fullscreenElement :: bool

text \<open>
  The media element. \<open>paused\<close>, \<open>muted\<close>, \<open>volume\<close>, \<open>currentTime\<close> and \<open>duration\<close>
  belong to the media engine; the player reads them and assigns to them, and an assignment
  is modelled as storing the assigned value. \<open>play\<close> and \<open>pause\<close> are the engine's two
  requests, modelled by their effect on \<open>paused\<close>.
\<close>

record video =
  src :: string
  videoClasses :: "string list"
  width :: string
  paused :: bool
  muted :: bool
  volume :: number
  currentTime :: number
  duration :: number

definition play :: "video \<Rightarrow> video" where
  "play v = v\<lparr>paused := False\<rparr>"

definition pause :: "video \<Rightarrow> video" where
  "pause v = v\<lparr>paused := True\<rparr>"

text \<open>
  A button holds one \<open>i\<close> element, whose class name selects the glyph shown:
  \<open>iconClass\<close> is \<open>firstElementChild.className\<close> of the button.
\<close>

record button =
  iconClass :: string
  buttonClasses :: "string list"

text \<open>
  The attributes \<open>min\<close>, \<open>max\<close>, \<open>step\<close> and \<open>value\<close> of a range input are strings that
  hold the rendering of a number. The player writes them with \<open>toString\<close> or a numeric
  literal and reads \<open>value\<close> back with unary plus only, so the model stores the number
  such a string denotes.
\<close>

record rangeInput =
  min_attr :: number
  max_attr :: number
  step_attr :: number
  value_attr :: number
  inputClasses :: "string list"

text \<open>
  A range input does not keep every value assigned to it: the browser sanitises the value.
  A value below the minimum becomes the minimum, a value above the maximum becomes the
  maximum (when the maximum is not below the minimum), and a value off the grid
  \<open>min + k * step\<close> is moved to the nearest grid value inside the range, the upper one when
  two are equally near. An attribute that is not a finite number counts as its default:
  minimum \<open>0\<close>, maximum \<open>100\<close>, step \<open>1\<close>; a value that is not a finite number becomes
  the middle of the range before it is moved to the grid.

  \<open>sanitize\<close> is applied where the player assigns the playback position to the seek
  slider. The string assigned there is the shortest decimal that identifies the double;
  on the grid of whole seconds it is moved to the same value as the double itself. The
  other values the player assigns (\<open>0\<close> and \<open>1\<close> when the sliders are created, \<open>0\<close> and the
  remembered volume on the volume slider) are stored as given: in every state the player
  reaches they are grid values of the slider they go to.
\<close>

definition rangeMin :: "rangeInput \<Rightarrow> rat" where
  "rangeMin r = (case min_attr r of Fin a \<Rightarrow> a | _ \<Rightarrow> 0)"

definition rangeMax :: "rangeInput \<Rightarrow> rat" where
  "rangeMax r = (case max_attr r of Fin b \<Rightarrow> b | _ \<Rightarrow> 100)"

definition rangeStep :: "rangeInput \<Rightarrow> rat" where
  "rangeStep r = (case step_attr r of Fin s \<Rightarrow> if 0 < s then s else 1 | _ \<Rightarrow> 1)"

definition sanitize :: "rangeInput \<Rightarrow> number \<Rightarrow> number" where
  "sanitize r v =
     (let lo = rangeMin r; hi = rangeMax r; st = rangeStep r;
          x = (case v of Fin a \<Rightarrow> a | _ \<Rightarrow> if hi < lo then lo else lo + (hi - lo) / 2);
          c = (if x < lo then lo else if lo \<le> hi \<and> hi < x then hi else x);
          k = \<lfloor>(c - lo) / st\<rfloor>;
          down = lo + of_int k * st;
          up = lo + of_int (k + 1) * st
      in Fin (if c = down then c
              else if (hi < lo \<or> up \<le> hi) \<and> up - c \<le> c - down then up
              else down))"

record span =
  textContent :: string
  color :: string

record player =
  containerId :: string
  videoUrl :: string
  videoElement :: video
  controlsContainer :: node
  playPauseBtn :: button
  progressBar :: rangeInput
  volumeBar :: rangeInput
  fullscreenBtn :: button
  currentTimeDisplay :: span
  durationDisplay :: span
  muteBtn :: button
  skipBackwardBtn :: button
  skipForwardBtn :: button
  isSeeking :: bool
  previousVolume :: number

datatype error = Error string | TypeError

section \<open>Construction\<close>

text \<open>
  \<^verbatim>\<open>
  private validateInputs(): void {
      const container = document.getElementById(this.containerId);
      if (!container) throw new Error(`Invalid container ID: ${this.containerId}`);
      if (!this.videoUrl) throw new Error('Video URL is required.');
  }
  \<close>
\<close>

definition validateInputs :: "document \<Rightarrow> string \<Rightarrow> string \<Rightarrow> error + unit" where
  "validateInputs doc cid url =
     (if elements doc cid = None then Inl (Error (''Invalid container ID: '' @ cid))
      else if url = [] then Inl (Error ''Video URL is required.'')
      else Inr ())"

text \<open>
  The helper functions. A media element that has just been created is paused, not muted,
  at full volume and at position zero, and has no duration yet. The second argument of
  \<open>createButton\<close> in the source is the click listener; listeners are never replaced, so
  the model keeps them in \<open>dispatch\<close> below instead of in the button.
\<close>

definition createVideoElement :: "string \<Rightarrow> video" where
  "createVideoElement url =
     \<lparr>src = url, videoClasses = [''video''], width = ''100%'',
      paused = True, muted = False, volume = Fin 1, currentTime = Fin 0, duration = NaN\<rparr>"

definition createButton :: "string \<Rightarrow> button" where
  "createButton cls = \<lparr>iconClass = cls, buttonClasses = [''control-btn'']\<rparr>"

definition createRangeInput :: "number \<Rightarrow> number \<Rightarrow> string \<Rightarrow> number \<Rightarrow> number \<Rightarrow> rangeInput" where
  "createRangeInput lo hi className step val =
     \<lparr>min_attr = lo, max_attr = hi, step_attr = step, value_attr = val,
      inputClasses = [className]\<rparr>"

definition createSpan :: "string \<Rightarrow> span" where
  "createSpan txt = \<lparr>textContent = txt, color = ''#fff''\<rparr>"

fun appendChildren :: "node \<Rightarrow> node list \<Rightarrow> node" where
  "appendChildren (Node tag cls kids) new = Node tag cls (kids @ new)"

definition createDiv :: "string \<Rightarrow> node list \<Rightarrow> node" where
  "createDiv className kids = appendChildren (Node ''div'' [className] []) kids"

definition videoNode :: "video \<Rightarrow> node" where
  "videoNode v = Node ''video'' (videoClasses v) []"

definition buttonNode :: "button \<Rightarrow> node" where
  "buttonNode b = Node ''button'' (buttonClasses b) [Node ''i'' [] []]"

definition inputNode :: "rangeInput \<Rightarrow> node" where
  "inputNode r = Node ''input'' (inputClasses r) []"

definition spanNode :: "span \<Rightarrow> node" where
  "spanNode s = Node ''span'' [] []"

text \<open>
  \<open>createElements\<close> builds every element, nests the controls and appends the media element
  and the control strip to the container. \<open>newPlayer\<close> is its first part, the player with
  all its elements built and nested; the two field initialisers of the class,
  \<open>isSeeking = false\<close> and \<open>previousVolume = 1\<close>, are part of the record built there. The
  omitted arguments of the first \<open>createRangeInput\<close> call are its defaults, step \<open>'1'\<close> and
  value \<open>'0'\<close>. Appending to a container that is absent is a type error of the host
  language; \<open>validateInputs\<close> has excluded it before.
\<close>

definition newPlayer :: "string \<Rightarrow> string \<Rightarrow> player" where
  "newPlayer cid url =
     (let v = createVideoElement url;
          controls = createDiv ''controls'' [];
          playPause = createButton ''fa-solid fa-play'';
          skipBackward = createButton ''fa-solid fa-backward'';
          skipForward = createButton ''fa-solid fa-forward'';
          progress = createRangeInput (Fin 0) (Fin 0) ''progress-bar'' (Fin 1) (Fin 0);
          vol = createRangeInput (Fin 0) (Fin 1) ''volume-bar'' (Fin (1 / 100)) (Fin 1);
          mute = createButton ''fa-solid fa-volume-up'';
          fullscreen = createButton ''fa-solid fa-expand'';
          currentTimeSpan = createSpan ''00:00'';
          durationSpan = createSpan ''00:00'';
          timeContainer = createDiv ''time-container''
            [spanNode currentTimeSpan, inputNode progress, spanNode durationSpan];
          controls' = appendChildren controls
            [buttonNode playPause, buttonNode skipBackward, buttonNode skipForward,
             buttonNode mute, inputNode vol, buttonNode fullscreen, timeContainer]
      in \<lparr>containerId = cid, videoUrl = url, videoElement = v,
          controlsContainer = controls', playPauseBtn = playPause,
          progressBar = progress, volumeBar = vol, fullscreenBtn = fullscreen,
          currentTimeDisplay = currentTimeSpan, durationDisplay = durationSpan,
          muteBtn = mute, skipBackwardBtn = skipBackward, skipForwardBtn = skipForward,
          isSeeking = False, previousVolume = Fin 1\<rparr>)"

definition createElements :: "document \<Rightarrow> string \<Rightarrow> string \<Rightarrow> (error + player) \<times> document" where
  "createElements doc cid url =
     (let p = newPlayer cid url
      in case elements doc cid of
           None \<Rightarrow> (Inl TypeError, doc)
         | Some kids \<Rightarrow>
             (Inr p, doc\<lparr>elements := (elements doc)
                (cid \<mapsto> kids @ [videoNode (videoElement p), controlsContainer p])\<rparr>))"

text \<open>
  \<open>addStyles\<close> appends one style block to the document head; its first rule is scoped by
  the identifier of the container.
\<close>

definition addStyles :: "string \<Rightarrow> document \<Rightarrow> document" where
  "addStyles cid doc =
     doc\<lparr>head := head doc @
       [[''#'' @ cid, ''.video'', ''.controls'', ''.control-btn'', ''.time-container'',
         ''.progress-bar'', ''.volume-bar'', ''.time-container span'']]\<rparr>"

text \<open>
  \<^verbatim>\<open>
  constructor(private containerId: string, private videoUrl: string) {
      this.validateInputs();
      this.createElements();
      this.setupEventListeners();
      this.addStyles();
  }
  \<close>
  An exception leaves the constructor at the call that raised it; the document returned
  beside the error is the document as it was at that moment. \<open>setupEventListeners\<close>
  only registers the listeners; which listener runs for which event is the function
  \<open>dispatch\<close> below.
\<close>

definition constructor :: "document \<Rightarrow> string \<Rightarrow> string \<Rightarrow> (error + player) \<times> document" where
  "constructor doc cid url =
     (case validateInputs doc cid url of
        Inl e \<Rightarrow> (Inl e, doc)
      | Inr u \<Rightarrow>
          (case createElements doc cid url of
             (Inl e, doc') \<Rightarrow> (Inl e, doc')
           | (Inr p, doc') \<Rightarrow> (Inr p, addStyles cid doc')))"

section \<open>The operations of the player\<close>

text \<open>
  \<^verbatim>\<open>
  private togglePlay(): void {
    if (this.videoElement.paused) {
        this.videoElement.play();
        this.playPauseBtn.firstElementChild!.className = 'fa-solid fa-pause';
    } else {
        this.videoElement.pause();
        this.playPauseBtn.firstElementChild!.className = 'fa-solid fa-play';
    }
  }
  \<close>
\<close>

definition togglePlay :: "player \<Rightarrow> player" where
  "togglePlay p =
     (if paused (videoElement p)
      then p\<lparr>videoElement := play (videoElement p),
             playPauseBtn := (playPauseBtn p)\<lparr>iconClass := ''fa-solid fa-pause''\<rparr>\<rparr>
      else p\<lparr>videoElement := pause (videoElement p),
             playPauseBtn := (playPauseBtn p)\<lparr>iconClass := ''fa-solid fa-play''\<rparr>\<rparr>)"

text \<open>
  \<^verbatim>\<open>
  private toggleMute(): void {
      if (this.videoElement.muted) {
          this.videoElement.muted = false;
          this.videoElement.volume = this.previousVolume;
          this.volumeBar.value = this.previousVolume.toString();
          this.muteBtn.firstElementChild!.className = 'fa-solid fa-volume-up';
      } else {
          this.previousVolume = this.videoElement.volume;
          this.videoElement.muted = true;
          this.videoElement.volume = 0;
          this.volumeBar.value = '0';
          this.muteBtn.firstElementChild!.className = 'fa-solid fa-volume-xmark';
      }
  }
  \<close>
\<close>

definition toggleMute :: "player \<Rightarrow> player" where
  "toggleMute p =
     (if muted (videoElement p)
      then p\<lparr>videoElement := (videoElement p)\<lparr>muted := False, volume := previousVolume p\<rparr>,
             volumeBar := (volumeBar p)\<lparr>value_attr := previousVolume p\<rparr>,
             muteBtn := (muteBtn p)\<lparr>iconClass := ''fa-solid fa-volume-up''\<rparr>\<rparr>
      else p\<lparr>previousVolume := volume (videoElement p),
             videoElement := (videoElement p)\<lparr>muted := True, volume := Fin 0\<rparr>,
             volumeBar := (volumeBar p)\<lparr>value_attr := Fin 0\<rparr>,
             muteBtn := (muteBtn p)\<lparr>iconClass := ''fa-solid fa-volume-xmark''\<rparr>\<rparr>)"

text \<open>
  \<^verbatim>\<open>
  private toggleFullscreen(): void {
      if (document.fullscreenElement) document.exitFullscreen();
      else this.videoElement.requestFullscreen();
  }

  private skipTime(seconds: number): void {
      this.videoElement.currentTime += seconds;
  }
  \<close>
  \<open>fullscreenElement\<close> of the model tells whether some element is shown fullscreen.
\<close>

definition toggleFullscreen :: "document \<Rightarrow> document" where
  "toggleFullscreen doc =
     (if fullscreenElement doc then doc\<lparr>fullscreenElement := False\<rparr>
      else doc\<lparr>fullscreenElement := True\<rparr>)"

definition skipTime :: "number \<Rightarrow> player \<Rightarrow> player" where
  "skipTime seconds p =
     p\<lparr>videoElement := (videoElement p)
         \<lparr>currentTime := num_add (currentTime (videoElement p)) seconds\<rparr>\<rparr>"

text \<open>
  \<^verbatim>\<open>
  private updateProgress(): void {
      if (!this.isSeeking) {
          this.progressBar.value = this.videoElement.currentTime.toString();
          this.currentTimeDisplay.textContent = this.formatTime(this.videoElement.currentTime);
      }
  }
  \<close>
\<close>

definition updateProgress :: "player \<Rightarrow> player" where
  "updateProgress p =
     (if \<not> isSeeking p
      then p\<lparr>progressBar := (progressBar p)
               \<lparr>value_attr := sanitize (progressBar p) (currentTime (videoElement p))\<rparr>,
             currentTimeDisplay := (currentTimeDisplay p)
               \<lparr>textContent := formatTime (currentTime (videoElement p))\<rparr>\<rparr>
      else p)"

text \<open>
  The four listeners that \<open>setupEventListeners\<close> writes in place:
  \<^verbatim>\<open>
  this.videoElement.addEventListener('timeupdate', () => this.updateProgress());
  this.videoElement.addEventListener('loadedmetadata', () => {
      this.progressBar.max = this.videoElement.duration.toString();
      this.durationDisplay.textContent = this.formatTime(this.videoElement.duration);
  });
  this.progressBar.addEventListener('input', () => {
      this.isSeeking = true;
      this.videoElement.currentTime = +this.progressBar.value;
  });
  this.progressBar.addEventListener('change', () => (this.isSeeking = false));
  this.volumeBar.addEventListener('input', () => (this.videoElement.volume = +this.volumeBar.value));
  \<close>
\<close>

definition onLoadedMetadata :: "player \<Rightarrow> player" where
  "onLoadedMetadata p =
     p\<lparr>progressBar := (progressBar p)\<lparr>max_attr := duration (videoElement p)\<rparr>,
       durationDisplay := (durationDisplay p)
         \<lparr>textContent := formatTime (duration (videoElement p))\<rparr>\<rparr>"

definition onProgressInput :: "player \<Rightarrow> player" where
  "onProgressInput p =
     p\<lparr>isSeeking := True,
       videoElement := (videoElement p)\<lparr>currentTime := value_attr (progressBar p)\<rparr>\<rparr>"

definition onProgressChange :: "player \<Rightarrow> player" where
  "onProgressChange p = p\<lparr>isSeeking := False\<rparr>"

definition onVolumeInput :: "player \<Rightarrow> player" where
  "onVolumeInput p =
     p\<lparr>videoElement := (videoElement p)\<lparr>volume := value_attr (volumeBar p)\<rparr>\<rparr>"

text \<open>
  The source ends by mounting two players, \<open>new CustomVideoPlayer("video1", ...)\<close> and
  \<open>new CustomVideoPlayer("video2", ...)\<close>, on a page that has both containers.
\<close>

definition page :: document where
  "page = \<lparr>elements = [''video1'' \<mapsto> [], ''video2'' \<mapsto> []], head = [],
           fullscreenElement = False\<rparr>"

definition player1 :: player where
  "player1 = newPlayer ''video1'' ''../videos/Nice-1.mp4''"

subsection \<open>Events\<close>

text \<open>
  Every way into the player after construction is an event: a click on one of the five
  buttons, \<open>timeupdate\<close> and \<open>loadedmetadata\<close> of the media element, \<open>input\<close> and \<open>change\<close>
  of the seek slider, and \<open>input\<close> of the volume slider. The listeners are those given to
  \<open>createButton\<close> in \<open>createElements\<close> (\<open>togglePlay\<close>, \<open>skipTime(-5)\<close>, \<open>skipTime(5)\<close>,
  \<open>toggleMute\<close>, \<open>toggleFullscreen\<close>) and those registered by \<open>setupEventListeners\<close>.
\<close>

datatype control = PlayPause | SkipBackward | SkipForward | Mute | Fullscreen

datatype event =
  Click control | TimeUpdate | LoadedMetadata | ProgressInput | ProgressChange | VolumeInput

fun dispatch :: "event \<Rightarrow> document \<times> player \<Rightarrow> document \<times> player" where
  "dispatch (Click PlayPause) (doc, p) = (doc, togglePlay p)"
| "dispatch (Click SkipBackward) (doc, p) = (doc, skipTime (Fin (- 5)) p)"
| "dispatch (Click SkipForward) (doc, p) = (doc, skipTime (Fin 5) p)"
| "dispatch (Click Mute) (doc, p) = (doc, toggleMute p)"
| "dispatch (Click Fullscreen) (doc, p) = (toggleFullscreen doc, p)"
| "dispatch TimeUpdate (doc, p) = (doc, updateProgress p)"
| "dispatch LoadedMetadata (doc, p) = (doc, onLoadedMetadata p)"
| "dispatch ProgressInput (doc, p) = (doc, onProgressInput p)"
| "dispatch ProgressChange (doc, p) = (doc, onProgressChange p)"
| "dispatch VolumeInput (doc, p) = (doc, onVolumeInput p)"

subsection \<open>The media engine between two events\<close>

text \<open>
  Playback advances on the engine's side: between two events the playback position is
  whatever the engine has made it, and the duration is known once the engine has read the
  metadata. The media element can be paused from outside the player as well (a media
  key, the browser's own controls for the element); the player has no listener for that.
  When the user moves the thumb of a slider, the browser stores the new value in the
  slider before it fires \<open>input\<close>.
\<close>

definition engineTime :: "number \<Rightarrow> player \<Rightarrow> player" where
  "engineTime t p = p\<lparr>videoElement := (videoElement p)\<lparr>currentTime := t\<rparr>\<rparr>"

definition engineDuration :: "number \<Rightarrow> player \<Rightarrow> player" where
  "engineDuration d p = p\<lparr>videoElement := (videoElement p)\<lparr>duration := d\<rparr>\<rparr>"

definition enginePause :: "player \<Rightarrow> player" where
  "enginePause p = p\<lparr>videoElement := pause (videoElement p)\<rparr>"

definition dragProgress :: "number \<Rightarrow> player \<Rightarrow> player" where
  "dragProgress x p = p\<lparr>progressBar := (progressBar p)\<lparr>value_attr := x\<rparr>\<rparr>"

definition dragVolume :: "number \<Rightarrow> player \<Rightarrow> player" where
  "dragVolume x p = p\<lparr>volumeBar := (volumeBar p)\<lparr>value_attr := x\<rparr>\<rparr>"

subsection \<open>What the page shows\<close>

text \<open>
  The properties of the elements that reach the screen: the two time texts, the glyph of
  each button, and the position and range of the two sliders.
\<close>

definition display :: "player \<Rightarrow> string list \<times> number list" where
  "display p =
     ([textContent (currentTimeDisplay p), textContent (durationDisplay p),
       iconClass (playPauseBtn p), iconClass (skipBackwardBtn p), iconClass (skipForwardBtn p),
       iconClass (muteBtn p), iconClass (fullscreenBtn p)],
      [value_attr (progressBar p), max_attr (progressBar p), value_attr (volumeBar p)])"

section \<open>Properties of rounding\<close>

declare expo_from.simps [simp del]

lemma rne_of_int [simp]: "rne (of_int m) = m"
  by (simp add: rne_def)

lemma rne_ge: "of_int m \<le> q \<Longrightarrow> m \<le> rne q"
proof -
  assume "of_int m \<le> q"
  then have "m \<le> \<lfloor>q\<rfloor>" by (simp add: le_floor_iff)
  then show ?thesis by (auto simp: rne_def Let_def)
qed

lemma rne_less: 
  assumes "q < of_int m - 1 / 2"
  shows "rne q < m"
proof -
  have "q < of_int m" using assms by linarith
  then have f: "\<lfloor>q\<rfloor> < m" by (simp add: floor_less_iff)
  show ?thesis
  proof (cases "\<lfloor>q\<rfloor> = m - 1")
    case True
    then have "q - of_int \<lfloor>q\<rfloor> < 1 / 2" using assms by simp
    then show ?thesis using True by (simp add: rne_def Let_def)
  next
    case False
    then have "\<lfloor>q\<rfloor> + 1 < m" using f by linarith
    then show ?thesis by (auto simp: rne_def Let_def)
  qed
qed

lemma expo_from_range: "e0 \<le> 1024 \<Longrightarrow> e0 \<le> expo_from x e0 \<and> expo_from x e0 \<le> 1024"
proof (induction x e0 rule: expo_from.induct)
  case (1 x e)
  show ?case
  proof (cases "1024 \<le> e \<or> \<bar>x\<bar> < 2 powi (e + 1)")
    case True
    then show ?thesis using 1(2) by (subst expo_from.simps, subst expo_from.simps) simp
  next
    case False
    then have "e + 1 \<le> expo_from x (e + 1) \<and> expo_from x (e + 1) \<le> 1024" using 1 by simp
    then show ?thesis using False by (subst expo_from.simps, subst (2) expo_from.simps) simp
  qed
qed

lemma expo_from_upper: "expo_from x e0 < 1024 \<Longrightarrow> \<bar>x\<bar> < 2 powi (expo_from x e0 + 1)"
proof (induction x e0 rule: expo_from.induct)
  case (1 x e)
  show ?case
  proof (cases "1024 \<le> e \<or> \<bar>x\<bar> < 2 powi (e + 1)")
    case True
    then have eq: "expo_from x e = e" by (subst expo_from.simps) simp
    then show ?thesis using True 1(2) by simp
  next
    case False
    then have eq: "expo_from x e = expo_from x (e + 1)" by (subst expo_from.simps) simp
    then show ?thesis using False 1 by simp
  qed
qed

lemma expo_from_lower: "e0 < expo_from x e0 \<Longrightarrow> 2 powi (expo_from x e0) \<le> \<bar>x\<bar>"
proof (induction x e0 rule: expo_from.induct)
  case (1 x e)
  show ?case
  proof (cases "1024 \<le> e \<or> \<bar>x\<bar> < 2 powi (e + 1)")
    case True
    then have eq: "expo_from x e = e" by (subst expo_from.simps) simp
    then show ?thesis using 1(2) by simp
  next
    case False
    then have eq: "expo_from x e = expo_from x (e + 1)" by (subst expo_from.simps) simp
    show ?thesis
    proof (cases "e + 1 < expo_from x (e + 1)")
      case True
      then show ?thesis using False 1(1) eq by simp
    next
      case F2: False
      have "e + 1 \<le> expo_from x (e + 1)" using expo_from_range[of "e + 1" x] False by simp
      then have "expo_from x (e + 1) = e + 1" using F2 by simp
      then show ?thesis using False eq by simp
    qed
  qed
qed

lemma expo_range: "- 1022 \<le> expo x \<and> expo x \<le> 1024"
  unfolding expo_def using expo_from_range[of "- 1022" x] by simp

lemma expo_upper: "expo x < 1024 \<Longrightarrow> \<bar>x\<bar> < 2 powi (expo x + 1)"
  unfolding expo_def by (rule expo_from_upper)

lemma expo_lower: "- 1022 < expo x \<Longrightarrow> 2 powi (expo x) \<le> \<bar>x\<bar>"
  unfolding expo_def by (rule expo_from_lower)

lemma expo_eqI:
  assumes "- 1022 \<le> e" and "e \<le> 1023"
    and lo: "- 1022 < e \<Longrightarrow> 2 powi e \<le> \<bar>x\<bar>"
    and hi: "\<bar>x\<bar> < 2 powi (e + 1)"
  shows "expo x = e"
proof (rule ccontr)
  assume ne: "expo x \<noteq> e"
  show False
  proof (cases "expo x < e")
    case True
    then have "\<bar>x\<bar> < 2 powi (expo x + 1)" using assms(2) by (intro expo_upper) simp
    also have "(2::rat) powi (expo x + 1) \<le> 2 powi e" using True by (intro power_int_increasing) simp_all
    finally have "\<bar>x\<bar> < 2 powi e" .
    moreover have "- 1022 < e" using True expo_range[of x] by simp
    ultimately show False using lo by simp
  next
    case False
    then have gt: "e < expo x" using ne by simp
    then have "2 powi (expo x) \<le> \<bar>x\<bar>" using assms(1) by (intro expo_lower) simp
    moreover have "(2::rat) powi (e + 1) \<le> 2 powi (expo x)" using gt by (intro power_int_increasing) simp_all
    ultimately show False using hi by simp
  qed
qed

lemma ulp_pos [simp]: "0 < ulp x"
  by (simp add: ulp_def)

lemma ulp_ne [simp]: "ulp x \<noteq> 0"
  by (simp add: ulp_def)

text \<open>A number with at most 53 significant bits and a scale within range is its own rounding.\<close>

lemma fl_representable:
  assumes x: "x = of_int M * 2 powi k" and M: "\<bar>M\<bar> < 2 ^ 53" and k: "- 1074 \<le> k" and k2: "k \<le> 971"
  shows "fl x = Fin x"
proof -
  define e where "e = expo x"
  have ax: "\<bar>x\<bar> = of_int \<bar>M\<bar> * 2 powi k" by (simp add: x abs_mult)
  have "of_int \<bar>M\<bar> < (2::rat) ^ 53" using M by (metis of_int_less_iff of_int_numeral of_int_power)
  then have "\<bar>x\<bar> < 2 ^ 53 * 2 powi k" unfolding ax by (intro mult_strict_right_mono) simp_all
  also have "\<dots> = 2 powi (53 + k)" by (simp add: power_int_add)
  finally have xlt: "\<bar>x\<bar> < 2 powi (53 + k)" .
  have "(2::rat) powi (53 + k) \<le> 2 powi 1024" using k2 by (intro power_int_increasing) simp_all
  then have xmax: "\<bar>x\<bar> < 2 ^ 1024" using xlt by simp
  have e_le: "e - 52 \<le> k"
  proof (cases "- 1022 < e")
    case True
    then have "2 powi e \<le> \<bar>x\<bar>" unfolding e_def by (rule expo_lower)
    then have "(2::rat) powi e < 2 powi (53 + k)" using xlt by simp
    moreover have "(2::rat) powi (53 + k) \<le> 2 powi e" if "53 + k \<le> e"
      using that by (intro power_int_increasing) simp_all
    ultimately have "e < 53 + k" by fastforce
    then show ?thesis by simp
  next
    case False
    then have "e = - 1022" using expo_range[of x] by (simp add: e_def)
    then show ?thesis using k by simp
  qed
  define j where "j = nat (k - (e - 52))"
  have kj: "k = (e - 52) + int j" using e_le by (simp add: j_def)
  have "x / ulp x = of_int M * (2 powi k / 2 powi (e - 52))" by (simp add: x ulp_def e_def)
  also have "(2::rat) powi k / 2 powi (e - 52) = 2 ^ j" by (simp add: kj power_int_add)
  also have "of_int M * (2::rat) ^ j = of_int (M * 2 ^ j)" by simp
  finally have q: "x / ulp x = of_int (M * 2 ^ j)" .
  have "of_int (rne (x / ulp x)) * ulp x = x"
    unfolding q rne_of_int unfolding q[symmetric] by (simp add: ulp_ne)
  moreover have "\<not> 2 ^ 1024 \<le> x" "\<not> x \<le> - (2 ^ 1024)" using xmax by linarith+
  ultimately show ?thesis by (simp add: fl_def Let_def)
qed


lemma fl_eqI:
  assumes "- 1022 \<le> e" and "e \<le> 1023"
    and "- 1022 < e \<Longrightarrow> 2 powi e \<le> \<bar>x\<bar>"
    and "\<bar>x\<bar> < 2 powi (e + 1)"
    and "rne (x / 2 powi (e - 52)) = m"
    and "\<bar>of_int m * 2 powi (e - 52)\<bar> < (2::rat) ^ 1024"
  shows "fl x = Fin (of_int m * 2 powi (e - 52))"
proof -
  have "expo x = e" using assms(1-4) by (rule expo_eqI)
  then have u: "ulp x = 2 powi (e - 52)" by (simp add: ulp_def)
  have "\<not> 2 ^ 1024 \<le> of_int m * (2::rat) powi (e - 52)" "\<not> of_int m * (2::rat) powi (e - 52) \<le> - (2 ^ 1024)"
    using assms(6) by linarith+
  then show ?thesis by (simp add: fl_def u assms(5) Let_def)
qed

lemma fl_tenth: "fl (1 / 10) = Fin (3602879701896397 / 36028797018963968)"
proof -
  have "rne ((1 / 10) / 2 powi (- 4 - 52)) = 7205759403792794" by code_simp
  then have "fl (1 / 10) = Fin (of_int 7205759403792794 * 2 powi (- 4 - 52))"
    by (intro fl_eqI) simp_all
  then show ?thesis by simp
qed

lemma double_scaled:
  assumes "is_double x"
  shows "x = of_int (rne (x / ulp x)) * ulp x"
  using assms by (simp add: is_double_def fl_def Let_def split: if_splits)

lemma expo_ge:
  assumes "2 powi e \<le> \<bar>x\<bar>" and "e \<le> 1024"
  shows "e \<le> expo x"
proof (rule ccontr)
  assume "\<not> e \<le> expo x"
  then have lt: "expo x < e" by simp
  then have "\<bar>x\<bar> < 2 powi (expo x + 1)" using assms(2) by (intro expo_upper) simp
  also have "(2::rat) powi (expo x + 1) \<le> 2 powi e" using lt by (intro power_int_increasing) simp_all
  finally show False using assms(1) by simp
qed

lemma expo_le:
  assumes "\<bar>x\<bar> < 2 powi (e + 1)" and "- 1022 \<le> e"
  shows "expo x \<le> e"
proof (rule ccontr)
  assume "\<not> expo x \<le> e"
  then have gt: "e < expo x" by simp
  then have "2 powi (expo x) \<le> \<bar>x\<bar>" using assms(2) by (intro expo_lower) simp
  moreover have "(2::rat) powi (e + 1) \<le> 2 powi (expo x)" using gt by (intro power_int_increasing) simp_all
  ultimately show False using assms(1) by simp
qed

lemma fl_sub5:
  assumes d: "is_double p" and lo: "5 \<le> p" and hi: "p < 2 ^ 53"
  shows "fl (p - 5) = Fin (p - 5)"
proof -
  define e where "e = expo p"
  define P where "P = rne (p / ulp p)"
  have e2: "2 \<le> e" unfolding e_def using lo by (intro expo_ge) simp_all
  have e52: "e \<le> 52" unfolding e_def using lo hi by (intro expo_le) simp_all
  define j where "j = nat (52 - e)"
  have u: "ulp p = 2 powi (e - 52)" by (simp add: ulp_def e_def)
  have uj: "ulp p * 2 ^ j = 1"
  proof -
    have "ulp p * 2 ^ j = 2 powi (e - 52) * 2 powi (int j)" by (simp add: u)
    also have "\<dots> = 2 powi (e - 52 + int j)" by (simp add: power_int_add)
    also have "e - 52 + int j = 0" using e52 by (simp add: j_def)
    finally show ?thesis by simp
  qed
  have p: "p = of_int P * ulp p" unfolding P_def using d by (rule double_scaled)
  define M where "M = P - 5 * 2 ^ j"
  have "of_int M * ulp p = of_int P * ulp p - 5 * (ulp p * 2 ^ j)" by (simp add: M_def algebra_simps)
  then have Mp: "of_int M * ulp p = p - 5" using p uj by simp
  have "0 \<le> of_int M * ulp p" using Mp lo by simp
  then have M0: "0 \<le> M" using ulp_pos[of p] by (simp add: zero_le_mult_iff)
  have "p < 2 powi (e + 1)" using expo_upper[of p] e52 lo by (simp add: e_def)
  also have "(2::rat) powi (e + 1) = 2 ^ 53 * ulp p"
  proof -
    have "e + 1 = 53 + (e - 52)" by simp
    then have "(2::rat) powi (e + 1) = 2 powi (53 + (e - 52))" by (rule arg_cong)
    also have "\<dots> = 2 powi 53 * 2 powi (e - 52)" by (rule power_int_add) simp
    finally show ?thesis by (simp add: u)
  qed
  finally have "of_int M * ulp p < 2 ^ 53 * ulp p" using Mp by simp
  then have "(of_int M :: rat) < 2 ^ 53" using ulp_pos[of p] by simp
  then have M1: "M < 2 ^ 53" by (metis of_int_less_iff of_int_numeral of_int_power)
  have "p - 5 = of_int M * 2 powi (e - 52)" using Mp u by simp
  then show ?thesis using M0 M1 e2 e52 by (intro fl_representable[of _ M "e - 52"]) simp_all
qed


lemma pos_multiple_ge:
  fixes c :: rat
  assumes "0 < of_int Z * c" and "0 < c"
  shows "c \<le> of_int Z * c"
proof -
  have "0 < (of_int Z :: rat)" using assms by (simp add: zero_less_mult_iff)
  then have "1 \<le> Z" by simp
  then have "(1::rat) \<le> of_int Z" by linarith
  then show ?thesis using assms(2) by simp
qed

lemma powi_split:
  assumes "a \<le> b"
  shows "(2::rat) powi b = 2 ^ nat (b - a) * 2 powi a"
proof -
  have "b = int (nat (b - a)) + a" using assms by simp
  then have "(2::rat) powi b = 2 powi (int (nat (b - a)) + a)" by (rule arg_cong)
  also have "\<dots> = 2 powi (int (nat (b - a))) * 2 powi a" by (rule power_int_add) simp
  finally show ?thesis by (simp only: power_int_of_nat)
qed

lemma gap_below_multiple:
  assumes d: "is_double d" and d0: "0 \<le> d" and dn: "d < 60 * of_int n"
    and g: "e + 5 \<le> expo d" and e: "e \<le> 49"
  shows "30 * 2 powi (e - 52) < 60 * of_int n - d"
proof -
  define D where "D = rne (d / ulp d)"
  have dD: "d = of_int D * ulp d" unfolding D_def using d by (rule double_scaled)
  define g where "g = expo d - 52"
  have ug: "ulp d = 2 powi g" by (simp add: ulp_def g_def)
  have ge: "e - 47 \<le> g" using g by (simp add: g_def)
  have u32: "32 * (2::rat) powi (e - 52) = 2 powi (e - 47)"
  proof -
    have "(2::rat) powi (e - 47) = 2 ^ nat (e - 47 - (e - 52)) * 2 powi (e - 52)"
      by (rule powi_split) simp
    then show ?thesis by simp
  qed
  have upos: "0 < (2::rat) powi (e - 52)" by simp
  show ?thesis
  proof (cases "g \<le> 2")
    case True
    define t where "t = nat (2 - g)"
    have "(2::rat) powi 2 = 2 ^ nat (2 - g) * 2 powi g" using True by (rule powi_split)
    then have four: "(4::rat) = 2 ^ t * ulp d" by (simp add: t_def ug)
    have "60 * of_int n - d = 15 * of_int n * 4 - of_int D * ulp d" using dD by simp
    also have "\<dots> = of_int (15 * n * 2 ^ t - D) * ulp d" by (subst four) (simp add: algebra_simps)
    finally have eq: "60 * of_int n - d = of_int (15 * n * 2 ^ t - D) * ulp d" .
    have "0 < of_int (15 * n * 2 ^ t - D) * ulp d" using dn eq by simp
    then have "ulp d \<le> of_int (15 * n * 2 ^ t - D) * ulp d" by (rule pos_multiple_ge) simp
    then have "ulp d \<le> 60 * of_int n - d" using eq by simp
    moreover have "(2::rat) powi (e - 47) \<le> ulp d" unfolding ug using ge by (intro power_int_increasing) simp_all
    ultimately have "32 * 2 powi (e - 52) \<le> 60 * of_int n - d" using u32 by simp
    then show ?thesis using upos by linarith
  next
    case False
    define t where "t = nat (g - 2)"
    have "(2::rat) powi g = 2 ^ nat (g - 2) * 2 powi 2" using False by (intro powi_split) simp
    then have ud: "ulp d = 2 ^ t * 4" by (simp add: t_def ug)
    have "60 * of_int n - d = 15 * of_int n * 4 - of_int D * (2 ^ t * 4)" using dD ud by simp
    also have "\<dots> = of_int (15 * n - D * 2 ^ t) * 4" by (simp add: algebra_simps)
    finally have eq: "60 * of_int n - d = of_int (15 * n - D * 2 ^ t) * 4" .
    have "0 < of_int (15 * n - D * 2 ^ t) * (4::rat)" using dn eq by simp
    then have "(4::rat) \<le> of_int (15 * n - D * 2 ^ t) * 4" by (rule pos_multiple_ge) simp
    then have four: "4 \<le> 60 * of_int n - d" using eq by simp
    have "(2::rat) powi (e - 52) \<le> 2 powi (- 3)" using e by (intro power_int_increasing) simp_all
    then have "30 * (2::rat) powi (e - 52) < 4" by simp
    then show ?thesis using four by linarith
  qed
qed

lemma floor_fl_div60:
  assumes d: "is_double d" and d0: "0 \<le> d" and d1: "d < 60 * 2 ^ 50"
  shows "\<exists>y. fl (d / 60) = Fin y \<and> \<lfloor>y\<rfloor> = \<lfloor>d / 60\<rfloor>"
proof -
  define x where "x = d / 60"
  define e where "e = expo x"
  define u where "u = ulp x"
  define f where "f = \<lfloor>x\<rfloor>"
  have x0: "0 \<le> x" and x1: "x < 2 ^ 50" using d0 d1 by (simp_all add: x_def)
  have e49: "e \<le> 49" unfolding e_def using x0 x1 by (intro expo_le) simp_all
  have ue: "u = 2 powi (e - 52)" by (simp add: u_def ulp_def e_def)
  have upos: "0 < u" by (simp add: u_def)
  define j where "j = nat (52 - e)"
  have "(2::rat) powi 0 = 2 ^ nat (0 - (e - 52)) * 2 powi (e - 52)" using e49 by (intro powi_split) simp
  then have uj: "2 ^ j * u = 1" by (simp add: j_def ue)
  have u8: "u \<le> 1 / 8"
  proof -
    have "(2::rat) powi (e - 52) \<le> 2 powi (- 3)" using e49 by (intro power_int_increasing) simp_all
    then show ?thesis by (simp add: ue)
  qed
  have xu: "x / u = x * 2 ^ j"
  proof -
    have "x / u = x * (2 ^ j * u) / u" by (simp add: uj)
    then show ?thesis using upos by simp
  qed
  have f0: "0 \<le> f" using x0 by (simp add: f_def)
  have fx: "of_int f \<le> x" "x < of_int (f + 1)" unfolding f_def by linarith+
  have gap: "30 * u < 60 * of_int (f + 1) - d"
  proof (cases "x < 1 / 2")
    case True
    then have "f = 0" unfolding f_def by (intro floor_unique) (use x0 in simp_all)
    moreover have "d < 30" using True by (simp add: x_def)
    ultimately show ?thesis using u8 by simp
  next
    case False
    then have "2 powi (- 1) \<le> \<bar>x\<bar>" by simp
    then have em1: "- 1 \<le> e" unfolding e_def by (rule expo_ge) simp
    then have "2 powi e \<le> \<bar>x\<bar>" unfolding e_def by (intro expo_lower) simp
    then have "2 powi e \<le> x" using x0 by simp
    then have "2 powi e * 60 \<le> d" by (simp add: x_def)
    moreover have "0 < (2::rat) powi e" by simp
    ultimately have "32 * 2 powi e \<le> d" by linarith
    moreover have "(2::rat) powi (e + 5) = 2 ^ nat (e + 5 - e) * 2 powi e" by (rule powi_split) simp
    ultimately have "2 powi (e + 5) \<le> \<bar>d\<bar>" using d0 by simp
    then have "e + 5 \<le> expo d" using e49 by (intro expo_ge) simp_all
    moreover have "d < 60 * of_int (f + 1)" using fx(2) by (simp add: x_def)
    ultimately show ?thesis unfolding ue using d d0 e49 by (intro gap_below_multiple) 
  qed
  define R where "R = rne (x / u)"
  define y where "y = of_int R * u"
  have lo: "of_int f \<le> y"
  proof -
    have "of_int (f * 2 ^ j) \<le> x / u" using fx(1) by (simp add: xu)
    then have "f * 2 ^ j \<le> R" unfolding R_def by (rule rne_ge)
    then have "(of_int (f * 2 ^ j) :: rat) \<le> of_int R" by (simp only: of_int_le_iff)
    then have "of_int (f * 2 ^ j) * u \<le> of_int R * u" using upos by (simp only: mult_le_cancel_right_pos)
    moreover have "of_int (f * 2 ^ j) * u = of_int f * (2 ^ j * u)" by simp
    ultimately have "of_int f * (2 ^ j * u) \<le> of_int R * u" by (simp only:)
    then show ?thesis by (simp only: uj y_def mult_1_right)
  qed
  have hi: "y < of_int (f + 1)"
  proof -
    have "x < of_int (f + 1) - u / 2" using gap by (simp add: x_def)
    then have "x * 2 ^ j < (of_int (f + 1) - u / 2) * 2 ^ j" by simp
    also have "\<dots> = of_int ((f + 1) * 2 ^ j) - (2 ^ j * u) / 2" by (simp add: algebra_simps)
    finally have "x / u < of_int ((f + 1) * 2 ^ j) - 1 / 2" by (simp add: xu uj)
    then have "R < (f + 1) * 2 ^ j" unfolding R_def by (rule rne_less)
    then have "(of_int R :: rat) < of_int ((f + 1) * 2 ^ j)" by (simp only: of_int_less_iff)
    then have "of_int R * u < of_int ((f + 1) * 2 ^ j) * u" using upos by (simp only: mult_less_cancel_right_pos)
    moreover have "of_int ((f + 1) * 2 ^ j) * u = of_int (f + 1) * (2 ^ j * u)" by simp
    ultimately have "of_int R * u < of_int (f + 1) * (2 ^ j * u)" by (simp only:)
    then show ?thesis by (simp only: uj y_def mult_1_right)
  qed
  have fl: "\<lfloor>y\<rfloor> = f" using lo hi by (intro floor_unique) simp_all
  have "of_int (f + 1) \<le> (2::rat) ^ 50"
  proof -
    have "of_int f < (2::rat) ^ 50" using fx(1) x1 by linarith
    then have "f < 2 ^ 50" by (metis of_int_less_iff of_int_numeral of_int_power)
    then have "f + 1 \<le> 2 ^ 50" by simp
    then show ?thesis by (metis of_int_le_iff of_int_numeral of_int_power)
  qed
  then have ymax: "y < 2 ^ 50" using hi by linarith
  have y0: "0 \<le> y" using lo f0 by (smt (verit) of_int_0_le_iff order_trans)
  have "(2::rat) ^ 50 \<le> 2 ^ 1024" by (rule power_increasing) simp_all
  then have "\<not> 2 ^ 1024 \<le> y" "\<not> y \<le> - (2 ^ 1024)" using ymax y0 by linarith+
  then have "fl x = Fin y" by (simp add: fl_def Let_def y_def R_def u_def)
  then show ?thesis using fl by (simp add: x_def f_def)
qed


section \<open>Properties of the time formatter\<close>

declare decimal.simps [simp del]

lemma decimal_ne: "decimal n \<noteq> []"
  by (induction n rule: decimal.induct) (subst decimal.simps, simp)

lemma digit_inj: "a < 10 \<Longrightarrow> b < 10 \<Longrightarrow> (digit a = digit b) = (a = b)"
  unfolding digit.simps by (rule nth_eq_iff_index_eq) simp_all

lemma digit_in: "a < 10 \<Longrightarrow> digit a \<in> set ''0123456789''"
  unfolding digit.simps by (rule nth_mem) simp

lemma decimal_chars: "set (decimal n) \<subseteq> set ''0123456789''"
proof (induction n rule: decimal.induct)
  case (1 n)
  show ?case
  proof (cases "n < 10")
    case True
    then show ?thesis using digit_in[of "nat n"] by (subst decimal.simps) simp
  next
    case False
    then have "set (decimal (n div 10)) \<subseteq> set ''0123456789''" using 1 by simp
    moreover have "digit (nat (n mod 10)) \<in> set ''0123456789''" by (rule digit_in) simp
    ultimately show ?thesis using False by (subst decimal.simps) simp
  qed
qed

lemma decimal_length: "n < 10 ^ k \<Longrightarrow> 0 < k \<Longrightarrow> length (decimal n) \<le> k"
proof (induction n arbitrary: k rule: decimal.induct)
  case (1 n)
  show ?case
  proof (cases "n < 10")
    case True
    then show ?thesis using 1(3) by (subst decimal.simps) simp
  next
    case False
    then obtain j where k: "k = Suc j" using 1(3) by (cases k) auto
    have "j \<noteq> 0" using False 1(2) k by (cases j) simp_all
    moreover have "n div 10 < 10 ^ j" using 1(2) k by simp
    ultimately have "length (decimal (n div 10)) \<le> j" using 1(1)[OF False, of j] by simp
    then show ?thesis using False k by (subst decimal.simps) simp
  qed
qed

lemma decimal_hd: "0 \<le> n \<Longrightarrow> (hd (decimal n) = CHR ''0'') = (n = 0)"
proof (induction n rule: decimal.induct)
  case (1 n)
  show ?case
  proof (cases "n < 10")
    case True
    then have "(digit (nat n) = digit 0) = (nat n = 0)" using 1(2) by (intro digit_inj) simp_all
    then show ?thesis using True 1(2) by (subst decimal.simps) simp
  next
    case False
    then have "(hd (decimal (n div 10)) = CHR ''0'') = (n div 10 = 0)" using 1 by simp
    moreover have "n div 10 \<noteq> 0" using False by simp
    ultimately show ?thesis using False decimal_ne[of "n div 10"] by (subst decimal.simps) simp
  qed
qed

lemma decimal_two:
  assumes "0 \<le> s" and "s < 60"
  shows "(if s < 10 then ''0'' else '''') @ decimal s = [digit (nat (s div 10)), digit (nat (s mod 10))]"
proof (cases "s < 10")
  case True
  then show ?thesis using assms by (simp add: decimal.simps[of s])
next
  case False
  moreover have "s div 10 < 10" using assms by simp
  ultimately show ?thesis by (simp add: decimal.simps[of s] decimal.simps[of "s div 10"])
qed

lemma toString_small: "0 \<le> n \<Longrightarrow> n < 10 ^ 21 \<Longrightarrow> toString (IFin n) = decimal n"
  using decimal_length[of n 21] by (simp add: toString_nat_def Let_def)

lemma rem_range:
  fixes d :: rat
  shows "0 \<le> \<lfloor>d - 60 * of_int \<lfloor>d / 60\<rfloor>\<rfloor> \<and> \<lfloor>d - 60 * of_int \<lfloor>d / 60\<rfloor>\<rfloor> < 60"
proof -
  have "of_int \<lfloor>d / 60\<rfloor> \<le> d / 60" by (rule of_int_floor_le)
  then have lo: "0 \<le> d - 60 * of_int \<lfloor>d / 60\<rfloor>" by simp
  have "d / 60 < of_int \<lfloor>d / 60\<rfloor> + 1" by linarith
  then have hi: "d - 60 * of_int \<lfloor>d / 60\<rfloor> < 60" by simp
  from lo hi show ?thesis by (simp add: floor_less_iff)
qed

lemma is_double_int: "\<bar>M\<bar> < 2 ^ 53 \<Longrightarrow> is_double (of_int M)"
  unfolding is_double_def by (rule fl_representable[of _ M 0]) simp_all

lemma fl_125_9: "fl (1259 / 10) = Fin (4429712445983949 / 35184372088832)"
proof -
  have "rne ((1259 / 10) / 2 powi (6 - 52)) = 8859424891967898" by code_simp
  then have "fl (1259 / 10) = Fin (of_int 8859424891967898 * 2 powi (6 - 52))"
    by (intro fl_eqI) simp_all
  then show ?thesis by simp
qed

lemma is_double_125_9: "is_double (4429712445983949 / 35184372088832)"
  unfolding is_double_def by (rule fl_representable[of _ 4429712445983949 "- 45"]) simp_all

lemma formatTime_digits:
  fixes d :: rat
  assumes "is_double d" and "0 \<le> d" and "d < 60 * 2 ^ 50"
  shows "formatTime (Fin d) =
           decimal \<lfloor>d / 60\<rfloor> @ '':'' @
           [digit (nat (\<lfloor>d - 60 * of_int \<lfloor>d / 60\<rfloor>\<rfloor> div 10)),
            digit (nat (\<lfloor>d - 60 * of_int \<lfloor>d / 60\<rfloor>\<rfloor> mod 10))]"
proof -
  define m where "m = \<lfloor>d / 60\<rfloor>"
  define s where "s = \<lfloor>d - 60 * of_int \<lfloor>d / 60\<rfloor>\<rfloor>"
  obtain y where y: "fl (d / 60) = Fin y" "\<lfloor>y\<rfloor> = m"
    using floor_fl_div60[OF assms] unfolding m_def by blast
  have m0: "0 \<le> m" using assms(2) by (simp add: m_def)
  have "d / 60 < 2 ^ 50" using assms(3) by simp
  also have "(2::rat) ^ 50 < 10 ^ 21" by simp
  finally have m1: "m < 10 ^ 21" unfolding m_def by (simp add: floor_less_iff)
  have s: "0 \<le> s" "s < 60" using rem_range[of d] by (simp_all add: s_def)
  have tr: "trunc (d / 60) = \<lfloor>d / 60\<rfloor>" using assms(2) by (simp add: trunc_def)
  have "formatTime (Fin d) = toString (IFin m) @ '':'' @ ((if s < 10 then ''0'' else '''') @ toString (IFin s))"
    by (simp add: formatTime_def Let_def tr y s_def)
  also have "toString (IFin m) = decimal m" using m0 m1 by (rule toString_small)
  also have "toString (IFin s) = decimal s" using s by (intro toString_small) simp_all
  also have "(if s < 10 then ''0'' else '''') @ decimal s = [digit (nat (s div 10)), digit (nat (s mod 10))]"
    using s by (rule decimal_two)
  finally show ?thesis unfolding m_def s_def .
qed

lemma formatTime_int:
  assumes "0 \<le> n" and "n < 2 ^ 53"
  shows "formatTime (Fin (of_int n)) =
           decimal (n div 60) @ '':'' @
           [digit (nat (n mod 60 div 10)), digit (nat (n mod 60 mod 10))]"
proof -
  have d: "is_double (of_int n)" using assms by (intro is_double_int) simp
  have a: "(0::rat) \<le> of_int n" using assms(1) by simp
  have "(of_int n :: rat) < 2 ^ 53" using assms(2) by (metis of_int_less_iff of_int_numeral of_int_power)
  then have b: "(of_int n :: rat) < 60 * 2 ^ 50" by simp
  have f: "\<lfloor>(of_int n :: rat) / 60\<rfloor> = n div 60"
    using floor_divide_of_int_eq[of n 60, where ?'a = rat] by simp
  have "(of_int n :: rat) - 60 * of_int (n div 60) = of_int (n - 60 * (n div 60))" by simp
  also have "n - 60 * (n div 60) = n mod 60" by (simp add: minus_mult_div_eq_mod)
  finally have g: "\<lfloor>(of_int n :: rat) - 60 * of_int (n div 60)\<rfloor> = n mod 60" by simp
  show ?thesis using formatTime_digits[OF d a b] unfolding f g .
qed

lemma formatTime_zero: "formatTime (Fin 0) = ''0:00''"
  using formatTime_int[of 0] by (simp add: decimal.simps)

lemma formatTime_30: "formatTime (Fin 30) = ''0:30''"
  using formatTime_int[of 30] by (simp add: decimal.simps)

lemma formatTime_65: "formatTime (Fin 65) = ''1:05''"
  using formatTime_int[of 65] by (simp add: decimal.simps)

lemma formatTime_120: "formatTime (Fin 120) = ''2:00''"
  using formatTime_int[of 120] by (simp add: decimal.simps)

text \<open>
  C1, as the code has it. For every finite number of seconds \<open>d\<close> with \<open>0 \<le> d\<close> and
  \<open>d < 60 * 2 ^ 50\<close> the formatter returns the decimal digits of \<open>\<lfloor>d / 60\<rfloor>\<close>, a colon, and
  the two decimal digits of \<open>\<lfloor>d % 60\<rfloor>\<close>, where \<open>d % 60 = d - 60 * \<lfloor>d / 60\<rfloor>\<close> and its floor
  lies between 0 and 59. The minutes have no leading zero (they start with \<open>0\<close> only when
  they are \<open>0\<close>) and contain no colon, so there is no hours field however large the
  minutes are. The quotient \<open>d / 60\<close> is rounded before \<open>Math.floor\<close> sees it; below the
  bound the rounding never reaches the next integer.
\<close>

theorem formatTime_finite:
  fixes d :: rat
  assumes "is_double d" and "0 \<le> d" and "d < 60 * 2 ^ 50"
  shows "let m = \<lfloor>d / 60\<rfloor>; s = \<lfloor>d - 60 * of_int \<lfloor>d / 60\<rfloor>\<rfloor> in
           formatTime (Fin d) = decimal m @ '':'' @ [digit (nat (s div 10)), digit (nat (s mod 10))]
           \<and> 0 \<le> s \<and> s < 60
           \<and> (hd (decimal m) = CHR ''0'') = (m = 0)
           \<and> CHR '':'' \<notin> set (decimal m)"
proof -
  have 1: "formatTime (Fin d) = decimal \<lfloor>d / 60\<rfloor> @ '':'' @
           [digit (nat (\<lfloor>d - 60 * of_int \<lfloor>d / 60\<rfloor>\<rfloor> div 10)),
            digit (nat (\<lfloor>d - 60 * of_int \<lfloor>d / 60\<rfloor>\<rfloor> mod 10))]"
    using assms by (rule formatTime_digits)
  have "0 \<le> \<lfloor>d / 60\<rfloor>" using assms(2) by simp
  then have 2: "(hd (decimal \<lfloor>d / 60\<rfloor>) = CHR ''0'') = (\<lfloor>d / 60\<rfloor> = 0)" by (rule decimal_hd)
  have 3: "CHR '':'' \<notin> set (decimal \<lfloor>d / 60\<rfloor>)" using decimal_chars[of "\<lfloor>d / 60\<rfloor>"] by auto
  from 1 2 3 rem_range[of d] show ?thesis unfolding Let_def by simp
qed

text \<open>
  The three examples of the specification, obtained from the theorem; the number written
  \<open>125.9\<close> is the double nearest to it.
\<close>

theorem formatTime_finite_witness:
  "is_double 65 \<and> is_double 3 \<and> fl (1259 / 10) = Fin (4429712445983949 / 35184372088832)
   \<and> is_double (4429712445983949 / 35184372088832)
   \<and> formatTime (Fin 65) = ''1:05'' \<and> formatTime (Fin 3) = ''0:03''
   \<and> formatTime (Fin (4429712445983949 / 35184372088832)) = ''2:05''"
proof -
  have a: "is_double 65" using is_double_int[of 65] by simp
  have b: "is_double 3" using is_double_int[of 3] by simp
  have fa: "\<lfloor>65 / 60 :: rat\<rfloor> = 1" "\<lfloor>65 - 60 * of_int (1::int) :: rat\<rfloor> = 5" by code_simp+
  have fb: "\<lfloor>3 / 60 :: rat\<rfloor> = 0" "\<lfloor>3 - 60 * of_int (0::int) :: rat\<rfloor> = 3" by code_simp+
  have fc: "\<lfloor>4429712445983949 / 35184372088832 / 60 :: rat\<rfloor> = 2"
    "\<lfloor>4429712445983949 / 35184372088832 - 60 * of_int (2::int) :: rat\<rfloor> = 5" by code_simp+
  have "formatTime (Fin 65) = ''1:05''"
    using formatTime_finite[OF a, unfolded Let_def fa] by (simp add: decimal.simps)
  moreover have "formatTime (Fin 3) = ''0:03''"
    using formatTime_finite[OF b, unfolded Let_def fb] by (simp add: decimal.simps)
  moreover have "formatTime (Fin (4429712445983949 / 35184372088832)) = ''2:05''"
    using formatTime_finite[OF is_double_125_9, unfolded Let_def fc] by (simp add: decimal.simps)
  ultimately show ?thesis using a b fl_125_9 is_double_125_9 by simp
qed

text \<open>
  The claim as stated, for every \<open>d \<ge> 0\<close>, fails outside that range. The duration of an
  unbounded stream is \<open>Infinity\<close>, and the formatter renders it with a seconds field that
  is not two digits. At \<open>60 * (2 ^ 50 + 1) - 4\<close> seconds, a double, the quotient
  \<open>2 ^ 50 + 14 / 15\<close> is rounded up to \<open>2 ^ 50 + 1\<close>, and the minutes shown are one more
  than \<open>\<lfloor>d / 60\<rfloor>\<close>.
\<close>

theorem formatTime_infinity_counterexample:
  "formatTime PosInf = ''Infinity:NaN''
   \<and> is_double 67553994410557496
   \<and> formatTime (Fin 67553994410557496) = ''1125899906842625:56''
   \<and> \<lfloor>67553994410557496 / 60 :: rat\<rfloor> = 1125899906842624"
proof -
  have 1: "formatTime PosInf = ''Infinity:NaN''" by code_simp
  have "is_double (of_int 8444249301319687 * 2 powi 3)"
    unfolding is_double_def by (rule fl_representable[of _ 8444249301319687 3]) simp_all
  then have 2: "is_double 67553994410557496" by simp
  have "rne ((67553994410557496 / 60) / 2 powi (50 - 52)) = 4503599627370500" by code_simp
  then have "fl (67553994410557496 / 60) = Fin (of_int 4503599627370500 * 2 powi (50 - 52))"
    by (intro fl_eqI) simp_all
  then have q: "fl (67553994410557496 / 60) = Fin 1125899906842625" by simp
  have r: "trunc (67553994410557496 / 60) = 1125899906842624" by code_simp
  have s: "\<lfloor>67553994410557496 - 60 * of_int (1125899906842624::int) :: rat\<rfloor> = 56" by simp
  have d: "toString_nat 1125899906842625 = ''1125899906842625''" by code_simp
  have e: "toString_nat 56 = ''56''" by code_simp
  have "formatTime (Fin 67553994410557496)
      = toString (Math_floor (fl (67553994410557496 / 60))) @ '':'' @
        ((if less_than (Math_floor (Fin (67553994410557496 - 60 * of_int (trunc (67553994410557496 / 60))))) 10
          then ''0'' else '''') @
         toString (Math_floor (Fin (67553994410557496 - 60 * of_int (trunc (67553994410557496 / 60))))))"
    unfolding formatTime_def Let_def num_div.simps num_rem.simps ..
  also have "\<dots> = ''1125899906842625:56''"
    unfolding q r by (simp add: d e)
  finally have 3: "formatTime (Fin 67553994410557496) = ''1125899906842625:56''" .
  have 4: "\<lfloor>67553994410557496 / 60 :: rat\<rfloor> = 1125899906842624" by code_simp
  from 1 2 3 4 show ?thesis by simp
qed


section \<open>Construction fails before anything is built\<close>

text \<open>
  C3, as the code has it. \<open>validateInputs\<close> runs first and looks at the container before
  the locator. A mount-point identifier that resolves to no container makes construction
  fail with the error \<open>Invalid container ID: \<dots>\<close>, whatever the locator is; an empty
  locator makes it fail with \<open>Video URL is required.\<close> when the container exists. In both
  cases the document is the one construction started from: nothing was appended to the
  container and no style block was added. With both inputs valid, construction returns the
  player and a document in which the media element and the control strip have been
  appended to the container and one style block to the head.
\<close>

theorem constructor_fails_unchanged:
  "(elements doc cid = None \<longrightarrow>
      constructor doc cid url = (Inl (Error (''Invalid container ID: '' @ cid)), doc))
   \<and> (elements doc cid \<noteq> None \<longrightarrow>
      constructor doc cid [] = (Inl (Error ''Video URL is required.''), doc))
   \<and> (elements doc cid = Some kids \<and> url \<noteq> [] \<longrightarrow>
      constructor doc cid url =
        (Inr (newPlayer cid url),
         addStyles cid (doc\<lparr>elements := (elements doc)
           (cid \<mapsto> kids @ [videoNode (videoElement (newPlayer cid url)),
                            controlsContainer (newPlayer cid url)])\<rparr>)))"
  by (auto simp: constructor_def validateInputs_def createElements_def Let_def)

theorem constructor_fails_unchanged_witness:
  "constructor page ''video3'' ''../videos/Nice-1.mp4''
     = (Inl (Error ''Invalid container ID: video3''), page)
   \<and> constructor page ''video1'' [] = (Inl (Error ''Video URL is required.''), page)
   \<and> fst (constructor page ''video1'' ''../videos/Nice-1.mp4'') = Inr player1
   \<and> snd (constructor page ''video1'' ''../videos/Nice-1.mp4'') \<noteq> page"
  using constructor_fails_unchanged[of page "''video3''" "''../videos/Nice-1.mp4''" "[]"]
    constructor_fails_unchanged[of page "''video1''" "''../videos/Nice-1.mp4''" "[]"]
  by (simp add: page_def player1_def addStyles_def)

text \<open>
  The claim as stated promises the \<open>URL required\<close> error for every construction with an
  empty locator. When the container is missing as well, the error is the one about the
  container.
\<close>

theorem constructor_both_invalid_counterexample:
  "constructor page ''video3'' [] = (Inl (Error ''Invalid container ID: video3''), page)
   \<and> constructor page ''video3'' [] \<noteq> (Inl (Error ''Video URL is required.''), page)"
  by (simp add: constructor_def validateInputs_def page_def)

section \<open>Progress updates while seeking\<close>

lemma sanitize_seconds:
  assumes "min_attr r = Fin 0" and "step_attr r = Fin 1" and "max_attr r = Fin m" and "0 \<le> m"
  shows "\<exists>k. sanitize r (Fin t) = Fin (of_int k) \<and> 0 \<le> k \<and> of_int k \<le> m
             \<and> (t \<le> 0 \<longrightarrow> k = 0) \<and> (0 \<le> t \<and> t \<le> m \<longrightarrow> \<bar>of_int k - t\<bar> < 1)"
proof -
  define c where "c = (if t < 0 then 0 else if m < t then m else t)"
  define k where "k = \<lfloor>c\<rfloor>"
  have c0: "0 \<le> c" and cm: "c \<le> m" using assms(4) by (auto simp: c_def)
  have k0: "0 \<le> k" using c0 by (simp add: k_def)
  have kc: "of_int k \<le> c" "c < of_int k + 1" unfolding k_def by linarith+
  have s: "sanitize r (Fin t) =
      Fin (if c = of_int k then c
           else if of_int (k + 1) \<le> m \<and> of_int (k + 1) - c \<le> c - of_int k then of_int (k + 1)
           else of_int k)"
    using assms(4) by (simp add: sanitize_def rangeMin_def rangeMax_def rangeStep_def assms(1-3)
        Let_def c_def k_def not_less)
  have t0: "c = 0" if "t \<le> 0" using that assms(4) by (auto simp: c_def)
  have tc: "c = t" if "0 \<le> t" "t \<le> m" using that by (auto simp: c_def)
  show ?thesis
  proof (cases "c = of_int k")
    case True
    then have "sanitize r (Fin t) = Fin (of_int k)" using s by simp
    moreover have "k = 0" if "t \<le> 0" using t0[OF that] True by simp
    moreover have "\<bar>of_int k - t\<bar> < 1" if "0 \<le> t \<and> t \<le> m" using tc that True by simp
    ultimately show ?thesis using k0 cm True by auto
  next
    case False
    then have lt: "of_int k < c" using kc(1) by simp
    have nz: "\<not> t \<le> 0" using t0 False k_def by auto
    show ?thesis
    proof (cases "of_int (k + 1) \<le> m \<and> of_int (k + 1) - c \<le> c - of_int k")
      case True
      then have "sanitize r (Fin t) = Fin (of_int (k + 1))" using s False by simp
      moreover have "\<bar>of_int (k + 1) - t\<bar> < 1" if "0 \<le> t \<and> t \<le> m"
        using tc that lt kc(2) by simp
      ultimately show ?thesis using k0 True nz by (intro exI[of _ "k + 1"]) simp
    next
      case F2: False
      then have "sanitize r (Fin t) = Fin (of_int k)" using s False by auto
      moreover have "\<bar>of_int k - t\<bar> < 1" if "0 \<le> t \<and> t \<le> m"
        using tc that lt kc(2) by simp
      moreover have "of_int k \<le> m" using kc(1) cm by linarith
      ultimately show ?thesis using k0 nz by (intro exI[of _ k]) simp
    qed
  qed
qed

text \<open>
  C4. In a state with the seeking flag set, any number of \<open>timeupdate\<close> events, with the
  engine moving the playback position to any values in between, leaves the value of the
  seek slider and the elapsed-time text as they were (and the flag set); such events
  change nothing at all in the player. With the flag clear, a \<open>timeupdate\<close> event runs
  \<open>updateProgress\<close>, which assigns the current time to the seek slider, where the browser
  sanitises it, and writes the formatted time into the elapsed-time display. On the seek
  slider as the player sets it up (minimum \<open>0\<close>, step \<open>1\<close>, a maximum \<open>m \<ge> 0\<close>) the
  sanitised value is a whole number between \<open>0\<close> and \<open>m\<close>; it is \<open>0\<close> for a position that is
  not positive and less than one away from a position inside the range.
\<close>

theorem updateProgress_while_seeking:
  "(isSeeking p \<longrightarrow>
      (let p' = fold (\<lambda>t q. updateProgress (engineTime t q)) ts p in
         value_attr (progressBar p') = value_attr (progressBar p)
         \<and> textContent (currentTimeDisplay p') = textContent (currentTimeDisplay p)
         \<and> isSeeking p'))
   \<and> (isSeeking p \<longrightarrow> (dispatch TimeUpdate ^^ n) (doc, p) = (doc, p))
   \<and> (\<not> isSeeking p \<longrightarrow>
         dispatch TimeUpdate (doc, p) = (doc, updateProgress p)
         \<and> value_attr (progressBar (updateProgress p))
             = sanitize (progressBar p) (currentTime (videoElement p))
         \<and> textContent (currentTimeDisplay (updateProgress p))
             = formatTime (currentTime (videoElement p))
         \<and> isSeeking (updateProgress p) = isSeeking p
         \<and> videoElement (updateProgress p) = videoElement p)
   \<and> (min_attr r = Fin 0 \<and> step_attr r = Fin 1 \<and> max_attr r = Fin m \<and> 0 \<le> m \<longrightarrow>
         (\<exists>k. sanitize r (Fin t) = Fin (of_int k) \<and> 0 \<le> k \<and> of_int k \<le> m
              \<and> (t \<le> 0 \<longrightarrow> k = 0) \<and> (0 \<le> t \<and> t \<le> m \<longrightarrow> \<bar>of_int k - t\<bar> < 1)))"
proof -
  have a: "isSeeking p \<Longrightarrow>
      value_attr (progressBar (fold (\<lambda>t q. updateProgress (engineTime t q)) ts p)) = value_attr (progressBar p)
      \<and> textContent (currentTimeDisplay (fold (\<lambda>t q. updateProgress (engineTime t q)) ts p)) = textContent (currentTimeDisplay p)
      \<and> isSeeking (fold (\<lambda>t q. updateProgress (engineTime t q)) ts p)" for p
  proof (induction ts arbitrary: p)
    case Nil
    then show ?case by simp
  next
    case (Cons t ts)
    let ?q = "updateProgress (engineTime t p)"
    have q: "isSeeking ?q" "progressBar ?q = progressBar p" "currentTimeDisplay ?q = currentTimeDisplay p"
      using Cons.prems by (simp_all add: updateProgress_def engineTime_def)
    from Cons.IH[OF q(1)] q(2,3) show ?case by simp
  qed
  have b: "isSeeking p \<Longrightarrow> (dispatch TimeUpdate ^^ n) (doc, p) = (doc, p)"
    by (induction n) (simp_all add: updateProgress_def)
  have c: "\<not> isSeeking p \<Longrightarrow>
         dispatch TimeUpdate (doc, p) = (doc, updateProgress p)
         \<and> value_attr (progressBar (updateProgress p))
             = sanitize (progressBar p) (currentTime (videoElement p))
         \<and> textContent (currentTimeDisplay (updateProgress p))
             = formatTime (currentTime (videoElement p))
         \<and> isSeeking (updateProgress p) = isSeeking p
         \<and> videoElement (updateProgress p) = videoElement p"
    by (simp add: updateProgress_def)
  have d: "min_attr r = Fin 0 \<and> step_attr r = Fin 1 \<and> max_attr r = Fin m \<and> 0 \<le> m \<Longrightarrow>
         (\<exists>k. sanitize r (Fin t) = Fin (of_int k) \<and> 0 \<le> k \<and> of_int k \<le> m
              \<and> (t \<le> 0 \<longrightarrow> k = 0) \<and> (0 \<le> t \<and> t \<le> m \<longrightarrow> \<bar>of_int k - t\<bar> < 1))"
    using sanitize_seconds[of r m t] by blast
  from a b c d show ?thesis by (simp add: Let_def)
qed

lemma sanitize_new_slider:
  "sanitize (progressBar player1) (Fin 65) = Fin 0"
  by (simp add: sanitize_def rangeMin_def rangeMax_def rangeStep_def player1_def newPlayer_def
      createRangeInput_def Let_def)

lemma sanitize_half_second:
  "sanitize (progressBar (onLoadedMetadata (engineDuration (Fin 120) player1))) (Fin (61 / 2)) = Fin 31"
proof -
  have f: "\<lfloor>61 / 2 :: rat\<rfloor> = 30" by code_simp
  show ?thesis
    by (simp add: sanitize_def rangeMin_def rangeMax_def rangeStep_def player1_def newPlayer_def
        createRangeInput_def createVideoElement_def onLoadedMetadata_def engineDuration_def Let_def f)
qed

text \<open>
  While the slider of a new player is being dragged, three \<open>timeupdate\<close> events at the
  positions 1, 2 and 3 change nothing. With the flag clear: on a new player, whose slider
  still has the maximum \<open>0\<close>, the position 65 leaves the slider at \<open>0\<close> and shows \<open>1:05\<close>; once
  the duration 120 is known, the position 30.5 puts the slider at \<open>31\<close>.
\<close>

theorem updateProgress_while_seeking_witness:
  "(let p = onProgressInput player1; p' = fold (\<lambda>t q. updateProgress (engineTime t q)) [Fin 1, Fin 2, Fin 3] p in
      isSeeking p \<and> value_attr (progressBar p') = Fin 0
      \<and> textContent (currentTimeDisplay p') = ''00:00''
      \<and> currentTime (videoElement p') = Fin 3)
   \<and> (dispatch TimeUpdate ^^ 3) (page, onProgressInput player1) = (page, onProgressInput player1)
   \<and> \<not> isSeeking player1
   \<and> value_attr (progressBar (snd (dispatch TimeUpdate (page, engineTime (Fin 65) player1)))) = Fin 0
   \<and> textContent (currentTimeDisplay (snd (dispatch TimeUpdate (page, engineTime (Fin 65) player1)))) = ''1:05''
   \<and> (let q = engineTime (Fin (61 / 2)) (onLoadedMetadata (engineDuration (Fin 120) player1)) in
        \<not> isSeeking q
        \<and> min_attr (progressBar q) = Fin 0 \<and> step_attr (progressBar q) = Fin 1
        \<and> max_attr (progressBar q) = Fin 120
        \<and> value_attr (progressBar (snd (dispatch TimeUpdate (page, q)))) = Fin 31)"
proof -
  let ?q = "engineTime (Fin (61 / 2)) (onLoadedMetadata (engineDuration (Fin 120) player1))"
  have r: "progressBar (engineTime (Fin 65) player1) = progressBar player1"
    "progressBar ?q = progressBar (onLoadedMetadata (engineDuration (Fin 120) player1))"
    by (simp_all add: engineTime_def)
  have q: "\<not> isSeeking ?q" "min_attr (progressBar ?q) = Fin 0" "step_attr (progressBar ?q) = Fin 1"
    "max_attr (progressBar ?q) = Fin 120" "currentTime (videoElement ?q) = Fin (61 / 2)"
    by (simp_all add: engineTime_def onLoadedMetadata_def engineDuration_def player1_def newPlayer_def
        createRangeInput_def Let_def)
  have n: "\<not> isSeeking (engineTime (Fin 65) player1)"
    "currentTime (videoElement (engineTime (Fin 65) player1)) = Fin 65"
    by (simp_all add: engineTime_def player1_def newPlayer_def Let_def)
  have s: "(let p = onProgressInput player1; p' = fold (\<lambda>t q. updateProgress (engineTime t q)) [Fin 1, Fin 2, Fin 3] p in
      isSeeking p \<and> value_attr (progressBar p') = Fin 0
      \<and> textContent (currentTimeDisplay p') = ''00:00''
      \<and> currentTime (videoElement p') = Fin 3)
   \<and> (dispatch TimeUpdate ^^ 3) (page, onProgressInput player1) = (page, onProgressInput player1)
   \<and> \<not> isSeeking player1"
    using updateProgress_while_seeking[of "onProgressInput player1" "[Fin 1, Fin 2, Fin 3]" 3 page
        "progressBar player1" 0 0]
    by (simp add: player1_def newPlayer_def Let_def onProgressInput_def engineTime_def updateProgress_def
        createRangeInput_def createSpan_def createVideoElement_def eval_nat_numeral)
  have a: "value_attr (progressBar (snd (dispatch TimeUpdate (page, engineTime (Fin 65) player1)))) = Fin 0
     \<and> textContent (currentTimeDisplay (snd (dispatch TimeUpdate (page, engineTime (Fin 65) player1)))) = ''1:05''"
    using updateProgress_while_seeking[of "engineTime (Fin 65) player1" "[]" 0 page
        "progressBar player1" 0 65] n
    by (simp add: r sanitize_new_slider formatTime_65)
  have b: "value_attr (progressBar (snd (dispatch TimeUpdate (page, ?q)))) = Fin 31"
    using updateProgress_while_seeking[of ?q "[]" 0 page "progressBar ?q" 120 "61 / 2"] q
    by (simp add: r sanitize_half_second)
  from s a b q show ?thesis by (simp add: Let_def)
qed

section \<open>Mute and unmute\<close>

lemmas handler_defs = togglePlay_def toggleMute_def skipTime_def updateProgress_def
  onLoadedMetadata_def onProgressInput_def onProgressChange_def onVolumeInput_def
  toggleFullscreen_def play_def pause_def

text \<open>
  C2. From any state in which the media element is not muted, whatever its volume,
  toggling mute twice (mute, then unmute) leaves the volume exactly what it was and the
  muted flag clear.
\<close>

theorem toggleMute_roundtrip:
  "\<not> muted (videoElement p) \<Longrightarrow>
     volume (videoElement (toggleMute (toggleMute p))) = volume (videoElement p)
     \<and> \<not> muted (videoElement (toggleMute (toggleMute p)))"
  by (simp add: toggleMute_def)

theorem toggleMute_roundtrip_witness:
  "(let p = onVolumeInput (dragVolume (Fin (1 / 4)) player1) in
      \<not> muted (videoElement p) \<and> volume (videoElement p) = Fin (1 / 4)
      \<and> volume (videoElement (toggleMute p)) = Fin 0
      \<and> volume (videoElement (toggleMute (toggleMute p))) = Fin (1 / 4)
      \<and> \<not> muted (videoElement (toggleMute (toggleMute p))))"
  using toggleMute_roundtrip[of "onVolumeInput (dragVolume (Fin (1 / 4)) player1)"]
  by (simp add: player1_def newPlayer_def createVideoElement_def Let_def onVolumeInput_def
      dragVolume_def toggleMute_def)

text \<open>
  C5, as the code has it. In a state that is not muted, a click on the mute button runs
  \<open>toggleMute\<close>, which saves the volume of the media element in \<open>previousVolume\<close>, sets the
  muted flag, sets the volume to 0 and the volume slider to 0, and gives the icon of the
  mute button the class \<open>fa-solid fa-volume-xmark\<close>.
\<close>

theorem toggleMute_mutes:
  "\<not> muted (videoElement p) \<Longrightarrow>
     dispatch (Click Mute) (doc, p) = (doc, toggleMute p)
     \<and> previousVolume (toggleMute p) = volume (videoElement p)
     \<and> muted (videoElement (toggleMute p))
     \<and> volume (videoElement (toggleMute p)) = Fin 0
     \<and> value_attr (volumeBar (toggleMute p)) = Fin 0
     \<and> iconClass (muteBtn (toggleMute p)) = ''fa-solid fa-volume-xmark''"
  by (simp add: toggleMute_def)

theorem toggleMute_mutes_witness:
  "\<not> muted (videoElement (onVolumeInput (dragVolume (Fin (1 / 2)) player1)))
   \<and> (let p = snd (dispatch (Click Mute) (page, onVolumeInput (dragVolume (Fin (1 / 2)) player1))) in
        previousVolume p = Fin (1 / 2) \<and> muted (videoElement p) \<and> volume (videoElement p) = Fin 0
        \<and> value_attr (volumeBar p) = Fin 0 \<and> iconClass (muteBtn p) = ''fa-solid fa-volume-xmark'')"
  using toggleMute_mutes[of "onVolumeInput (dragVolume (Fin (1 / 2)) player1)" page]
  by (simp add: player1_def newPlayer_def createVideoElement_def Let_def onVolumeInput_def
      dragVolume_def)

text \<open>
  The claim names the glyph \<open>volume-muted\<close>. The class the code sets is that of the glyph
  \<open>volume-xmark\<close>; it is not the class \<open>fa-solid fa-volume-muted\<close> that the other glyph names
  of the specification would give, and \<open>volume-muted\<close> does not occur in it.
\<close>

theorem toggleMute_icon_counterexample:
  "iconClass (muteBtn (toggleMute player1)) = ''fa-solid fa-volume-xmark''
   \<and> iconClass (muteBtn (toggleMute player1)) \<noteq> ''fa-solid fa-volume-muted''
   \<and> \<not> sublist ''volume-muted'' (iconClass (muteBtn (toggleMute player1)))"
proof -
  have "\<not> sublist ''volume-muted'' ''fa-solid fa-volume-xmark''" by code_simp
  then show ?thesis
    by (simp add: player1_def newPlayer_def createVideoElement_def Let_def toggleMute_def)
qed

lemma previousVolume_written:
  "\<not> (e = Click Mute \<and> \<not> muted (videoElement p)) \<Longrightarrow>
     previousVolume (snd (dispatch e (doc, p))) = previousVolume p"
proof (cases e)
  case (Click c)
  assume "\<not> (e = Click Mute \<and> \<not> muted (videoElement p))"
  with Click show ?thesis by (cases c) (simp_all add: handler_defs)
qed (simp_all add: handler_defs)

lemma previousVolume_read:
  "\<not> (e = Click Mute \<and> muted (videoElement p)) \<Longrightarrow>
     fst (dispatch e (doc, p\<lparr>previousVolume := x\<rparr>)) = fst (dispatch e (doc, p))
     \<and> (snd (dispatch e (doc, p\<lparr>previousVolume := x\<rparr>)))\<lparr>previousVolume := y\<rparr>
         = (snd (dispatch e (doc, p)))\<lparr>previousVolume := y\<rparr>"
proof (cases e)
  case (Click c)
  assume "\<not> (e = Click Mute \<and> muted (videoElement p))"
  with Click show ?thesis by (cases c) (simp_all add: handler_defs)
qed (simp_all add: handler_defs)

text \<open>
  C6. The remembered volume is \<open>1\<close> in a new player. An event changes it only when it is a
  click on the mute button in a state that is not muted. Its value matters to the outcome
  of an event only when the event is a click on the mute button in a muted state: for
  every other event, two states that differ in the remembered volume alone lead to the
  same document and to players that again differ in the remembered volume alone. Nothing
  the page shows is bound to it.
\<close>

theorem previousVolume_protected:
  "previousVolume (newPlayer cid url) = Fin 1
   \<and> (\<not> (e = Click Mute \<and> \<not> muted (videoElement p)) \<longrightarrow>
        previousVolume (snd (dispatch e (doc, p))) = previousVolume p)
   \<and> (\<not> (e = Click Mute \<and> muted (videoElement p)) \<longrightarrow>
        fst (dispatch e (doc, p\<lparr>previousVolume := x\<rparr>)) = fst (dispatch e (doc, p))
        \<and> (snd (dispatch e (doc, p\<lparr>previousVolume := x\<rparr>)))\<lparr>previousVolume := y\<rparr>
            = (snd (dispatch e (doc, p)))\<lparr>previousVolume := y\<rparr>)
   \<and> display (p\<lparr>previousVolume := x\<rparr>) = display p"
  using previousVolume_written[of e p doc] previousVolume_read[of e p doc x y]
  by (simp add: newPlayer_def Let_def display_def)

theorem previousVolume_protected_witness:
  "previousVolume player1 = Fin 1
   \<and> previousVolume (snd (dispatch VolumeInput (page, player1))) = Fin 1
   \<and> previousVolume (snd (dispatch (Click Mute) (page, toggleMute player1))) = Fin 1
   \<and> snd (dispatch (Click PlayPause) (page, player1\<lparr>previousVolume := Fin (1 / 2)\<rparr>))
       = (snd (dispatch (Click PlayPause) (page, player1)))\<lparr>previousVolume := Fin (1 / 2)\<rparr>
   \<and> display (player1\<lparr>previousVolume := Fin (1 / 2)\<rparr>) = display player1"
  using previousVolume_protected[of "''video1''" "''../videos/Nice-1.mp4''" VolumeInput player1 page "Fin (1 / 2)" "Fin (1 / 2)"]
    previousVolume_protected[of "''video1''" "''../videos/Nice-1.mp4''" "Click Mute" "toggleMute player1" page "Fin (1 / 2)" "Fin (1 / 2)"]
    previousVolume_protected[of "''video1''" "''../videos/Nice-1.mp4''" "Click PlayPause" player1 page "Fin (1 / 2)" "Fin (1 / 2)"]
  by (simp add: player1_def newPlayer_def createVideoElement_def Let_def handler_defs)

section \<open>Skipping\<close>

lemma skip_back_forth:
  assumes "is_double p" and "5 \<le> p" and "p < 2 ^ 53"
  shows "num_add (Fin p) (Fin (- 5)) = Fin (p - 5)"
    and "num_add (Fin (p - 5)) (Fin 5) = Fin p"
proof -
  show "num_add (Fin p) (Fin (- 5)) = Fin (p - 5)" using fl_sub5[OF assms] by simp
  show "num_add (Fin (p - 5)) (Fin 5) = Fin p" using assms(1) by (simp add: is_double_def)
qed




section \<open>Play and pause\<close>

text \<open>
  C8, as the code has it. From a paused state, toggling play twice leaves the media
  element paused and the icon of the play button with the class \<open>fa-solid fa-play\<close>, and
  changes nothing else. The state after the two toggles is the state before them exactly
  when the icon had that class to begin with, as it has in a new player.
\<close>

theorem togglePlay_twice:
  assumes "paused (videoElement p)"
  shows "paused (videoElement (togglePlay (togglePlay p)))
     \<and> iconClass (playPauseBtn (togglePlay (togglePlay p))) = ''fa-solid fa-play''
     \<and> togglePlay (togglePlay p) = p\<lparr>playPauseBtn := (playPauseBtn p)\<lparr>iconClass := ''fa-solid fa-play''\<rparr>\<rparr>
     \<and> (togglePlay (togglePlay p) = p) = (iconClass (playPauseBtn p) = ''fa-solid fa-play'')"
proof -
  let ?q = "togglePlay (togglePlay p)"
  have eq: "?q = p\<lparr>playPauseBtn := (playPauseBtn p)\<lparr>iconClass := ''fa-solid fa-play''\<rparr>\<rparr>"
    using assms by (simp add: togglePlay_def play_def pause_def)
  have icon: "iconClass (playPauseBtn ?q) = ''fa-solid fa-play''"
    by (simp add: eq)
  have "?q = p" if "iconClass (playPauseBtn p) = ''fa-solid fa-play''"
  proof -
    have "(playPauseBtn p)\<lparr>iconClass := ''fa-solid fa-play''\<rparr> = playPauseBtn p"
      using that by (cases "playPauseBtn p") simp
    then show ?thesis by (simp add: eq)
  qed
  moreover have "iconClass (playPauseBtn p) = ''fa-solid fa-play''" if "?q = p"
    using icon that by simp
  ultimately have "(?q = p) = (iconClass (playPauseBtn p) = ''fa-solid fa-play'')" by blast
  moreover have "paused (videoElement ?q)" using assms by (simp add: eq)
  ultimately show ?thesis using eq icon by simp
qed

theorem togglePlay_twice_witness:
  "paused (videoElement player1) \<and> togglePlay (togglePlay player1) = player1
   \<and> iconClass (playPauseBtn (togglePlay player1)) = ''fa-solid fa-pause''
   \<and> \<not> paused (videoElement (togglePlay player1))"
  using togglePlay_twice[of player1]
  by (simp add: player1_def newPlayer_def createVideoElement_def createButton_def Let_def togglePlay_def play_def)

text \<open>
  The claim as stated restores whatever icon class the button had. The icon is written
  by \<open>togglePlay\<close> alone and follows nothing else: after a click on play, a media element
  that is paused from outside the player is paused while the button shows the pause
  glyph, and two toggles from there end paused with the play glyph.
\<close>

theorem togglePlay_icon_counterexample:
  "(let p = enginePause (togglePlay player1) in
      paused (videoElement p)
      \<and> iconClass (playPauseBtn p) = ''fa-solid fa-pause''
      \<and> paused (videoElement (togglePlay (togglePlay p)))
      \<and> iconClass (playPauseBtn (togglePlay (togglePlay p))) = ''fa-solid fa-play'')"
  by (simp add: player1_def newPlayer_def createVideoElement_def createButton_def Let_def
      togglePlay_def play_def pause_def enginePause_def)

section \<open>Dragging the volume slider\<close>

text \<open>
  C9. The \<open>input\<close> listener of the volume slider sets the volume of the media element to
  the value of the slider. The muted flag stays as it was (set, if it was set), and so do
  the remembered volume, the seeking flag, every button with its icon class and the
  slider itself: putting the old volume back gives the old state.
\<close>

theorem onVolumeInput_frame:
  "dispatch VolumeInput (doc, p) = (doc, onVolumeInput p)
   \<and> volume (videoElement (onVolumeInput p)) = value_attr (volumeBar p)
   \<and> muted (videoElement (onVolumeInput p)) = muted (videoElement p)
   \<and> previousVolume (onVolumeInput p) = previousVolume p
   \<and> isSeeking (onVolumeInput p) = isSeeking p
   \<and> muteBtn (onVolumeInput p) = muteBtn p
   \<and> playPauseBtn (onVolumeInput p) = playPauseBtn p
   \<and> skipBackwardBtn (onVolumeInput p) = skipBackwardBtn p
   \<and> skipForwardBtn (onVolumeInput p) = skipForwardBtn p
   \<and> fullscreenBtn (onVolumeInput p) = fullscreenBtn p
   \<and> volumeBar (onVolumeInput p) = volumeBar p
   \<and> (onVolumeInput p)\<lparr>videoElement := (videoElement (onVolumeInput p))\<lparr>volume := volume (videoElement p)\<rparr>\<rparr> = p"
  by (simp add: onVolumeInput_def)

section \<open>The initial time texts\<close>

lemma toString_nat_hd:
  assumes "0 < n"
  shows "toString_nat n \<noteq> [] \<and> hd (toString_nat n) \<noteq> CHR ''0''"
proof -
  obtain h t where ds: "decimal n = h # t" using decimal_ne[of n] by (cases "decimal n") auto
  have h: "h \<noteq> CHR ''0''" using decimal_hd[of n] assms ds by simp
  have "rev (dropWhile (\<lambda>c. c = CHR ''0'') (rev (decimal n))) = h # rev (dropWhile (\<lambda>c. c = CHR ''0'') (rev t))"
    using h by (simp add: ds dropWhile_append3)
  then show ?thesis using h ds by (simp add: toString_nat_def Let_def)
qed

lemma toString_hd:
  "toString i = ''0'' \<or> (toString i \<noteq> [] \<and> hd (toString i) \<noteq> CHR ''0'')"
proof (cases i)
  case (IFin n)
  consider "n < 0" | "n = 0" | "0 < n" by linarith
  then show ?thesis
  proof cases
    case 1
    then show ?thesis using IFin by simp
  next
    case 2
    then show ?thesis using IFin by (simp add: toString_nat_def decimal.simps[of 0])
  next
    case 3
    then show ?thesis using IFin toString_nat_hd[of n] by simp
  qed
qed simp_all

lemma formatTime_never_initial: "formatTime x \<noteq> ''00:00''"
proof -
  define t where "t = toString (Math_floor (num_div x 60))"
  obtain r where f: "formatTime x = t @ CHR '':'' # r"
    by (simp add: formatTime_def Let_def t_def)
  have "t = ''0'' \<or> (t \<noteq> [] \<and> hd t \<noteq> CHR ''0'')" unfolding t_def by (rule toString_hd)
  then show ?thesis
  proof
    assume "t = ''0''"
    then show ?thesis using f by simp
  next
    assume "t \<noteq> [] \<and> hd t \<noteq> CHR ''0''"
    then obtain a u where "t = a # u" "a \<noteq> CHR ''0''" by (cases t) auto
    then show ?thesis using f by simp
  qed
qed

text \<open>
  C10, as the code has it. A player that construction returns shows \<open>00:00\<close> in both time
  displays. The formatter never returns that string; it renders zero as \<open>0:00\<close>. The
  elapsed-time display keeps its text through every event except a \<open>timeupdate\<close> handled
  with the seeking flag clear, which replaces it with the formatted playback position;
  the duration display keeps its text through every event except \<open>loadedmetadata\<close>, which
  replaces it with the formatted duration.
\<close>

theorem initial_time_text:
  "(constructor doc cid url = (Inr p, doc') \<longrightarrow>
      textContent (currentTimeDisplay p) = ''00:00'' \<and> textContent (durationDisplay p) = ''00:00'')
   \<and> formatTime x \<noteq> ''00:00'' \<and> formatTime (Fin 0) = ''0:00''
   \<and> (e \<noteq> TimeUpdate \<or> isSeeking q \<longrightarrow>
        currentTimeDisplay (snd (dispatch e (d, q))) = currentTimeDisplay q)
   \<and> (e \<noteq> LoadedMetadata \<longrightarrow>
        durationDisplay (snd (dispatch e (d, q))) = durationDisplay q)
   \<and> (\<not> isSeeking q \<longrightarrow>
        textContent (currentTimeDisplay (snd (dispatch TimeUpdate (d, q))))
          = formatTime (currentTime (videoElement q)))
   \<and> textContent (durationDisplay (snd (dispatch LoadedMetadata (d, q))))
       = formatTime (duration (videoElement q))"
proof -
  have a: "constructor doc cid url = (Inr p, doc') \<Longrightarrow>
      textContent (currentTimeDisplay p) = ''00:00'' \<and> textContent (durationDisplay p) = ''00:00''"
    by (auto simp: constructor_def createElements_def newPlayer_def createSpan_def Let_def
        split: sum.splits option.splits)
  have b: "e \<noteq> TimeUpdate \<or> isSeeking q \<Longrightarrow>
        currentTimeDisplay (snd (dispatch e (d, q))) = currentTimeDisplay q"
  proof (cases e)
    case (Click c)
    then show ?thesis by (cases c) (simp_all add: handler_defs)
  qed (auto simp: handler_defs)
  have c: "e \<noteq> LoadedMetadata \<Longrightarrow>
        durationDisplay (snd (dispatch e (d, q))) = durationDisplay q"
  proof (cases e)
    case (Click c)
    then show ?thesis by (cases c) (simp_all add: handler_defs)
  qed (auto simp: handler_defs)
  show ?thesis using a b c formatTime_never_initial[of x] formatTime_zero
    by (simp add: handler_defs)
qed

theorem initial_time_text_witness:
  "constructor page ''video1'' ''../videos/Nice-1.mp4''
     = (Inr player1, snd (constructor page ''video1'' ''../videos/Nice-1.mp4''))
   \<and> textContent (currentTimeDisplay player1) = ''00:00''
   \<and> textContent (durationDisplay player1) = ''00:00''
   \<and> formatTime (Fin 0) = ''0:00''
   \<and> currentTimeDisplay (snd (dispatch (Click PlayPause) (page, player1))) = currentTimeDisplay player1
   \<and> durationDisplay (snd (dispatch TimeUpdate (page, player1))) = durationDisplay player1
   \<and> \<not> isSeeking (engineTime (Fin 30) player1)
   \<and> textContent (currentTimeDisplay (snd (dispatch TimeUpdate (page, engineTime (Fin 30) player1)))) = ''0:30''
   \<and> textContent (durationDisplay (snd (dispatch LoadedMetadata (page, engineDuration (Fin 120) player1)))) = ''2:00''"
proof -
  have c: "constructor page ''video1'' ''../videos/Nice-1.mp4''
     = (Inr player1, snd (constructor page ''video1'' ''../videos/Nice-1.mp4''))"
    by (simp add: constructor_def validateInputs_def createElements_def page_def player1_def Let_def)
  have s: "\<not> isSeeking (engineTime (Fin 30) player1)"
    by (simp add: engineTime_def player1_def newPlayer_def Let_def)
  have t: "currentTime (videoElement (engineTime (Fin 30) player1)) = Fin 30"
    "duration (videoElement (engineDuration (Fin 120) player1)) = Fin 120"
    by (simp_all add: engineTime_def engineDuration_def)
  show ?thesis
    using c s
      initial_time_text[of page "''video1''" "''../videos/Nice-1.mp4''" player1
        "snd (constructor page ''video1'' ''../videos/Nice-1.mp4'')" "Fin 0" "Click PlayPause" player1 page]
      initial_time_text[of page "''video1''" "''../videos/Nice-1.mp4''" player1
        "snd (constructor page ''video1'' ''../videos/Nice-1.mp4'')" "Fin 0" TimeUpdate
        "engineTime (Fin 30) player1" page]
      initial_time_text[of page "''video1''" "''../videos/Nice-1.mp4''" player1
        "snd (constructor page ''video1'' ''../videos/Nice-1.mp4'')" "Fin 0" TimeUpdate
        "engineDuration (Fin 120) player1" page]
      initial_time_text[of page "''video1''" "''../videos/Nice-1.mp4''" player1
        "snd (constructor page ''video1'' ''../videos/Nice-1.mp4'')" "Fin 0" TimeUpdate player1 page]
    by (simp add: t formatTime_30 formatTime_120)
qed

text \<open>
  The claim as stated has the first \<open>timeupdate\<close> event replace the initial text. Once the
  duration is known the user can drag the seek slider before playback has started; the
  \<open>timeupdate\<close> that follows the seek is the first one, it arrives with the seeking flag
  set, and the elapsed-time display still reads \<open>00:00\<close> after it.
\<close>

theorem first_timeupdate_counterexample:
  "(let p1 = snd (dispatch LoadedMetadata (page, engineDuration (Fin 120) player1));
        p2 = snd (dispatch ProgressInput (page, dragProgress (Fin 30) p1));
        p3 = snd (dispatch TimeUpdate (page, p2))
    in textContent (currentTimeDisplay p3) = ''00:00''
       \<and> currentTime (videoElement p3) = Fin 30
       \<and> textContent (durationDisplay p3) = ''2:00'')"
  by (simp add: player1_def newPlayer_def createVideoElement_def createSpan_def createRangeInput_def
      Let_def handler_defs engineDuration_def dragProgress_def formatTime_120)


end
